theory Spec2Isabelle
  imports Main "HOL-Library.Word" "HOL-Library.Sublist"
begin

section \<open>Go values used by the Jira adapter\<close>

text \<open>
  The adapter is Go code (\<^verbatim>\<open>client.go\<close>, \<^verbatim>\<open>issues.go\<close>). Go's \<^verbatim>\<open>int\<close> is taken at its
  64-bit width: addition wraps, comparison is signed. A Go \<^verbatim>\<open>string\<close> is a byte string,
  which is what \<^typ>\<open>string\<close> is here. A Go function returning \<^verbatim>\<open>(*T, error)\<close> with a nil
  pointer exactly on failure is a sum \<open>error + T\<close>; one returning a struct value together
  with an error is a pair of the value and an \<open>error option\<close>, so that the value
  that comes with an error can be stated.
\<close>

type_synonym go_int = "64 word"

datatype error =
    ErrSyntax
  | ErrRange
  | NumError string string error
  | ErrorString string
  | WrapError string error

text \<open>
  \<open>NumError fn num err\<close> is \<^verbatim>\<open>*strconv.NumError\<close>; \<open>ErrorString\<close> is an error that only
  carries a message (\<^verbatim>\<open>fmt.Errorf\<close> without \<^verbatim>\<open>%w\<close>, and the errors of the transport and
  of the JSON decoder); \<open>WrapError label err\<close> is \<^verbatim>\<open>fmt.Errorf("label: %w", err)\<close>. The
  message of an error is computed by \<open>Error\<close>; \<^verbatim>\<open>strconv.Quote\<close>, which only the message
  of a \<open>NumError\<close> needs, is its first argument.
\<close>

fun Error :: "(string \<Rightarrow> string) \<Rightarrow> error \<Rightarrow> string" where
  "Error quote ErrSyntax = ''invalid syntax''"
| "Error quote ErrRange = ''value out of range''"
| "Error quote (NumError fn num err) =
     ''strconv.'' @ fn @ '': parsing '' @ quote num @ '': '' @ Error quote err"
| "Error quote (ErrorString s) = s"
| "Error quote (WrapError label err) = label @ '': '' @ Error quote err"

subsection \<open>strconv.Atoi and strconv.Itoa\<close>

text \<open>
  \<^verbatim>\<open>strconv.Atoi(s)\<close> is \<^verbatim>\<open>ParseInt(s, 10, 0)\<close> converted to \<^verbatim>\<open>int\<close>, with the function
  name of the error set to \<^verbatim>\<open>Atoi\<close>: an optional sign, then \<^verbatim>\<open>ParseUint\<close> on the rest
  (decimal digits only, read left to right, a range error as soon as the value leaves 64
  bits), then the range check against \<open>2 ^ 63\<close>.
\<close>

definition is_digit :: "char \<Rightarrow> bool" where
  "is_digit c = (48 \<le> (of_char c :: nat) \<and> (of_char c :: nat) \<le> 57)"

definition digit_val :: "char \<Rightarrow> nat" where
  "digit_val c = of_char c - 48"

definition maxVal :: nat where
  "maxVal = 2 ^ 64 - 1"

definition cutoff :: nat where
  "cutoff = maxVal div 10 + 1"

fun ParseUint_loop :: "nat \<Rightarrow> string \<Rightarrow> error + nat" where
  "ParseUint_loop n [] = Inr n"
| "ParseUint_loop n (c # cs) =
     (if \<not> is_digit c then Inl ErrSyntax
      else if n \<ge> cutoff then Inl ErrRange
      else let n1 = n * 10 + digit_val c
           in if n1 > maxVal then Inl ErrRange else ParseUint_loop n1 cs)"

definition ParseUint :: "string \<Rightarrow> error + nat" where
  "ParseUint s = (if s = [] then Inl ErrSyntax else ParseUint_loop 0 s)"

definition Atoi :: "string \<Rightarrow> error + go_int" where
  "Atoi s0 =
     (if s0 = [] then Inl (NumError ''Atoi'' s0 ErrSyntax)
      else let neg = (hd s0 = CHR ''-'');
               s = (if hd s0 = CHR ''+'' \<or> hd s0 = CHR ''-'' then tl s0 else s0)
           in case ParseUint s of
                Inl e \<Rightarrow> Inl (NumError ''Atoi'' s0 e)
              | Inr un \<Rightarrow>
                  if \<not> neg \<and> un \<ge> 2 ^ 63 then Inl (NumError ''Atoi'' s0 ErrRange)
                  else if neg \<and> un > 2 ^ 63 then Inl (NumError ''Atoi'' s0 ErrRange)
                  else Inr (if neg then - of_nat un else of_nat un))"

text \<open>\<^verbatim>\<open>strconv.Itoa(i)\<close> is \<^verbatim>\<open>FormatInt(int64(i), 10)\<close>: the decimal digits, after a minus
  sign when \<open>i\<close> is negative.\<close>

definition digit_char :: "nat \<Rightarrow> char" where
  "digit_char d = ''0123456789'' ! d"

function formatBits :: "nat \<Rightarrow> string" where
  "formatBits u =
     (if u < 10 then [digit_char u] else formatBits (u div 10) @ [digit_char (u mod 10)])"
  by pat_completeness auto
termination
  by (relation "measure id") auto

declare formatBits.simps [simp del]

definition Itoa :: "go_int \<Rightarrow> string" where
  "Itoa i =
     (if i <s 0 then CHR ''-'' # formatBits (nat (- sint i)) else formatBits (nat (sint i)))"

subsection \<open>time.Time\<close>

record Time =
  wall :: "64 word"
  ext :: "64 word"
  loc :: "string option"

definition zero_Time :: Time where
  "zero_Time = \<lparr>wall = 0, ext = 0, loc = None\<rparr>"

section \<open>client.go: the data model\<close>

text \<open>
  Field names are the source's; where two Go structs share a field name the record field
  carries the struct's name (or, for configurations, a short tag) in front.
\<close>

record ClientConfig =
  cfg_BaseURL :: string
  cfg_Email :: string
  cfg_APIToken :: string
  cfg_Timeout :: "64 word"

record Client =
  baseURL :: string
  email :: string
  apiToken :: string
  httpClient_Timeout :: "64 word"

record Status =
  Status_Name :: string
  Status_ID :: string

record IssueType =
  IssueType_Name :: string
  IssueType_ID :: string

record Project =
  Project_Key :: string
  Project_Name :: string
  Project_ID :: string

record Priority =
  Priority_Name :: string
  Priority_ID :: string

record User =
  DisplayName :: string
  EmailAddress :: string
  AccountID :: string

record Comment =
  Comment_ID :: string
  Body :: string
  Author :: User
  Comment_Created :: string
  Comment_Updated :: string

record Comments =
  Comments_Total :: go_int
  Comments_Comments :: "Comment list"

record IssueFields =
  Summary :: string
  Description :: string
  Status :: Status
  IssueType :: IssueType
  Project :: Project
  Created :: string
  Updated :: string
  Labels :: "string list"
  Priority :: "Priority option"
  Assignee :: "User option"
  Reporter :: "User option"
  Comments :: "Comments option"

record Issue =
  ID :: string
  Key :: string
  Self :: string
  Fields :: IssueFields

record SearchResult =
  res_StartAt :: go_int
  res_MaxResults :: go_int
  Total :: go_int
  Issues :: "Issue list"

record SearchJQLParams =
  JQL :: string
  StartAt :: go_int
  MaxResults :: go_int

subsection \<open>The world outside the adapter\<close>

text \<open>
  One call of the adapter talks to the standard library and to the network. What they
  answer is not fixed by the repository, so it is a parameter of every function below:
  \<^item> \<open>time_Parse\<close>, \<open>time_Format\<close>: \<^verbatim>\<open>time.Parse(layout, value)\<close> and \<^verbatim>\<open>t.Format(layout)\<close>;
    when \<^verbatim>\<open>time.Parse\<close> fails it returns the zero \<^verbatim>\<open>Time\<close> with its error;
  \<^item> \<open>QueryEscape\<close>: \<^verbatim>\<open>url.QueryEscape\<close>; \<open>base64\<close>: the encoding \<^verbatim>\<open>SetBasicAuth\<close> applies;
  \<^item> \<open>NewRequest_err\<close>: the error, if any, of \<^verbatim>\<open>http.NewRequestWithContext\<close> for a URL;
  \<^item> \<open>Do\<close>: the round trip, an error or a response;
  \<^item> \<open>decode_SearchResult\<close>, \<open>decode_Issue\<close>: \<^verbatim>\<open>json.NewDecoder(body).Decode\<close>.
  A response body is what reading it to the end yields: the bytes, and the read error if
  reading stopped early (\<^verbatim>\<open>io.ReadAll\<close> returns both).
\<close>

record Request =
  Method :: string
  URL :: string
  Header :: "string \<rightharpoonup> string list"

record Response =
  StatusCode :: go_int
  resp_Body :: "string \<times> error option"

record world =
  time_Parse :: "string \<Rightarrow> string \<Rightarrow> error + Time"
  time_Format :: "Time \<Rightarrow> string \<Rightarrow> string"
  QueryEscape :: "string \<Rightarrow> string"
  base64 :: "string \<Rightarrow> string"
  NewRequest_err :: "string \<Rightarrow> error option"
  Do :: "Request \<Rightarrow> error + Response"
  decode_SearchResult :: "string \<times> error option \<Rightarrow> error + SearchResult"
  decode_Issue :: "string \<times> error option \<Rightarrow> error + Issue"

definition ReadAll :: "string \<times> error option \<Rightarrow> string \<times> error option" where
  "ReadAll body = body"

section \<open>client.go: the client\<close>

definition NewClient :: "ClientConfig \<Rightarrow> Client" where
  "NewClient cfg =
     (let timeout = (if cfg_Timeout cfg = 0 then 30 * 1000000000 else cfg_Timeout cfg)
      in \<lparr>baseURL = cfg_BaseURL cfg, email = cfg_Email cfg, apiToken = cfg_APIToken cfg,
          httpClient_Timeout = timeout\<rparr>)"

definition NewRequestWithContext :: "world \<Rightarrow> string \<Rightarrow> string \<Rightarrow> error + Request" where
  "NewRequestWithContext w method url =
     (case NewRequest_err w url of
        Some err \<Rightarrow> Inl err
      | None \<Rightarrow> Inr \<lparr>Method = method, URL = url, Header = Map.empty\<rparr>)"

definition setAuth :: "world \<Rightarrow> Client \<Rightarrow> Request \<Rightarrow> Request" where
  "setAuth w c req =
     req\<lparr>Header := (Header req)
       (''Authorization'' \<mapsto> [''Basic '' @ base64 w (email c @ '':'' @ apiToken c)],
        ''Accept'' \<mapsto> [''application/json''],
        ''Content-Type'' \<mapsto> [''application/json''])\<rparr>"

definition search_endpoint :: "world \<Rightarrow> Client \<Rightarrow> SearchJQLParams \<Rightarrow> go_int \<Rightarrow> string" where
  "search_endpoint w c params maxResults =
     baseURL c @ ''/rest/api/3/search?jql='' @ QueryEscape w (JQL params)
       @ ''&startAt='' @ Itoa (StartAt params) @ ''&maxResults='' @ Itoa maxResults"

definition api_error :: "Response \<Rightarrow> error" where
  "api_error resp =
     (let body = fst (ReadAll (resp_Body resp))
      in ErrorString (''jira API error: status='' @ Itoa (StatusCode resp) @ '' body='' @ body))"

definition SearchJQLWithParams :: "world \<Rightarrow> Client \<Rightarrow> SearchJQLParams \<Rightarrow> error + SearchResult" where
  "SearchJQLWithParams w c params =
     (let maxResults = (if MaxResults params \<le>s 0 then 50 else MaxResults params);
          endpoint = search_endpoint w c params maxResults
      in case NewRequestWithContext w ''GET'' endpoint of
           Inl err \<Rightarrow> Inl (WrapError ''create request'' err)
         | Inr req \<Rightarrow>
             (case Do w (setAuth w c req) of
                Inl err \<Rightarrow> Inl (WrapError ''execute request'' err)
              | Inr resp \<Rightarrow>
                  if StatusCode resp \<noteq> 200 then Inl (api_error resp)
                  else (case decode_SearchResult w (resp_Body resp) of
                          Inl err \<Rightarrow> Inl (WrapError ''decode response'' err)
                        | Inr result \<Rightarrow> Inr result)))"

definition SearchJQL_client :: "world \<Rightarrow> Client \<Rightarrow> string \<Rightarrow> go_int \<Rightarrow> error + SearchResult" where
  "SearchJQL_client w c jql maxResults =
     SearchJQLWithParams w c \<lparr>JQL = jql, StartAt = 0, MaxResults = maxResults\<rparr>"

definition issue_endpoint :: "Client \<Rightarrow> string \<Rightarrow> string" where
  "issue_endpoint c issueKey = baseURL c @ ''/rest/api/3/issue/'' @ issueKey"

definition GetIssue :: "world \<Rightarrow> Client \<Rightarrow> string \<Rightarrow> error + Issue" where
  "GetIssue w c issueKey =
     (let endpoint = issue_endpoint c issueKey
      in case NewRequestWithContext w ''GET'' endpoint of
           Inl err \<Rightarrow> Inl (WrapError ''create request'' err)
         | Inr req \<Rightarrow>
             (case Do w (setAuth w c req) of
                Inl err \<Rightarrow> Inl (WrapError ''execute request'' err)
              | Inr resp \<Rightarrow>
                  if StatusCode resp \<noteq> 200 then Inl (api_error resp)
                  else (case decode_Issue w (resp_Body resp) of
                          Inl err \<Rightarrow> Inl (WrapError ''decode response'' err)
                        | Inr issue \<Rightarrow> Inr issue)))"

section \<open>issues.go: normalization\<close>

text \<open>\<^verbatim>\<open>transform.Document\<close> with the fields \<^verbatim>\<open>issueToDocument\<close> sets; a Go
  \<^verbatim>\<open>map[string]string\<close> is a partial map.\<close>

record Document =
  doc_ID :: string
  Content :: string
  Title :: string
  Source :: string
  doc_URL :: string
  Metadata :: "string \<rightharpoonup> string"
  UpdatedAt :: Time

definition zero_Document :: Document where
  "zero_Document =
     \<lparr>doc_ID = [], Content = [], Title = [], Source = [], doc_URL = [],
      Metadata = Map.empty, UpdatedAt = zero_Time\<rparr>"

definition updated_layout :: string where
  "updated_layout = ''2006-01-02T15:04:05.000-0700''"

text \<open>The body of the loop over the comments: one \<^verbatim>\<open>content += fmt.Sprintf(...)\<close>.\<close>

definition append_comment :: "string \<Rightarrow> Comment \<Rightarrow> string" where
  "append_comment content comment =
     content @ ''\<newline>\<newline>[Comment by '' @ DisplayName (Author comment) @ '']: '' @ Body comment"

definition issueToDocument :: "world \<Rightarrow> Issue \<Rightarrow> Document" where
  "issueToDocument w issue =
     (let content = Summary (Fields issue);
          content = (if Description (Fields issue) \<noteq> []
                     then content @ ''\<newline>\<newline>'' @ Description (Fields issue) else content);
          content = (case Comments (Fields issue) of
                       None \<Rightarrow> content
                     | Some cs \<Rightarrow> foldl append_comment content (Comments_Comments cs));
          updatedAt = (if Updated (Fields issue) \<noteq> []
                       then (case time_Parse w updated_layout (Updated (Fields issue)) of
                               Inl err \<Rightarrow> zero_Time
                             | Inr t \<Rightarrow> t)
                       else zero_Time);
          metadata = [''issue_key'' \<mapsto> Key issue,
                      ''project'' \<mapsto> Project_Key (Project (Fields issue)),
                      ''status'' \<mapsto> Status_Name (Status (Fields issue)),
                      ''issue_type'' \<mapsto> IssueType_Name (IssueType (Fields issue))];
          metadata = (case Priority (Fields issue) of
                        None \<Rightarrow> metadata
                      | Some p \<Rightarrow> metadata(''priority'' \<mapsto> Priority_Name p));
          metadata = (case Assignee (Fields issue) of
                        None \<Rightarrow> metadata
                      | Some u \<Rightarrow> metadata(''assignee'' \<mapsto> DisplayName u))
      in \<lparr>doc_ID = Key issue, Content = content, Title = Summary (Fields issue),
          Source = ''jira'', doc_URL = Self issue, Metadata = metadata,
          UpdatedAt = updatedAt\<rparr>)"

section \<open>issues.go: the single-issue activity\<close>

text \<open>
  Of the three single-call activities this is the one modelled. \<^verbatim>\<open>FetchIssuesActivity\<close>
  and \<^verbatim>\<open>SearchJQLActivity\<close> run one \<^verbatim>\<open>SearchJQL\<close>, apply \<^verbatim>\<open>issueToDocument\<close> to every
  issue and hand the documents to \<^verbatim>\<open>transform.StoreDocuments\<close>; they add nothing to the
  client and the normalization below them.
\<close>

record FetchIssueInput =
  fi_BaseURL :: string
  fi_Email :: string
  fi_APIToken :: string
  IssueKey :: string

record FetchIssueOutput =
  Document :: Document
  Found :: bool

definition zero_FetchIssueOutput :: FetchIssueOutput where
  "zero_FetchIssueOutput = \<lparr>Document = zero_Document, Found = False\<rparr>"

definition FetchIssueActivity :: "world \<Rightarrow> FetchIssueInput \<Rightarrow> FetchIssueOutput \<times> error option" where
  "FetchIssueActivity w input =
     (let client = NewClient \<lparr>cfg_BaseURL = fi_BaseURL input, cfg_Email = fi_Email input,
                              cfg_APIToken = fi_APIToken input, cfg_Timeout = 0\<rparr>
      in case GetIssue w client (IssueKey input) of
           Inl err \<Rightarrow> (zero_FetchIssueOutput, Some (WrapError ''get issue'' err))
         | Inr issue \<Rightarrow> (\<lparr>Document = issueToDocument w issue, Found = True\<rparr>, None))"

section \<open>issues.go: the page fetchers\<close>

text \<open>\<^verbatim>\<open>core.PageResult[Issue]\<close>, the value a fetcher hands to the pagination engine.\<close>

record PageResult =
  Items :: "Issue list"
  NextCursor :: string
  HasMore :: bool

definition zero_PageResult :: PageResult where
  "zero_PageResult = \<lparr>Items = [], NextCursor = [], HasMore = False\<rparr>"

record FetchAllIssuesConfig =
  fa_BaseURL :: string
  fa_Email :: string
  fa_APIToken :: string
  fa_Project :: string
  fa_Since :: "Time option"
  fa_MaxResults :: go_int

record SearchAllJQLConfig =
  sa_BaseURL :: string
  sa_Email :: string
  sa_APIToken :: string
  sa_JQL :: string
  sa_MaxResults :: go_int

definition project_jql :: "world \<Rightarrow> string \<Rightarrow> Time option \<Rightarrow> string" where
  "project_jql w project since =
     (case since of
        None \<Rightarrow> ''project = '' @ project @ '' ORDER BY updated DESC''
      | Some t \<Rightarrow> ''project = '' @ project @ '' AND updated >= '' @ [CHR 0x27]
                   @ time_Format w t ''2006-01-02 15:04'' @ [CHR 0x27]
                   @ '' ORDER BY updated DESC'')"

text \<open>
  The closure \<^verbatim>\<open>fetcher\<close> of \<^verbatim>\<open>FetchAllIssues\<close>. The length of a Go slice is an \<^verbatim>\<open>int\<close>,
  so \<^verbatim>\<open>startAt + len(result.Issues)\<close> is an addition of two \<^verbatim>\<open>int\<close>s.
\<close>

definition FetchAllIssues_fetcher ::
  "world \<Rightarrow> FetchAllIssuesConfig \<Rightarrow> string \<Rightarrow> PageResult \<times> error option" where
  "FetchAllIssues_fetcher w cfg cursor =
     (let client = NewClient \<lparr>cfg_BaseURL = fa_BaseURL cfg, cfg_Email = fa_Email cfg,
                              cfg_APIToken = fa_APIToken cfg, cfg_Timeout = 0\<rparr>;
          jql = project_jql w (fa_Project cfg) (fa_Since cfg)
      in case (if cursor \<noteq> [] then Atoi cursor else Inr 0) of
           Inl err \<Rightarrow> (zero_PageResult, Some (WrapError ''parse cursor'' err))
         | Inr startAt \<Rightarrow>
             (let maxResults = (if fa_MaxResults cfg \<le>s 0 then 100 else fa_MaxResults cfg)
              in case SearchJQLWithParams w client
                        \<lparr>JQL = jql, StartAt = startAt, MaxResults = maxResults\<rparr> of
                   Inl err \<Rightarrow> (zero_PageResult, Some (WrapError ''search jql'' err))
                 | Inr result \<Rightarrow>
                     (let nextStartAt = startAt + of_nat (length (Issues result));
                          hasMore = (nextStartAt <s Total result);
                          nextCursor = (if hasMore then Itoa nextStartAt else [])
                      in (\<lparr>Items = Issues result, NextCursor = nextCursor,
                           HasMore = hasMore\<rparr>, None))))"

text \<open>The closure \<^verbatim>\<open>fetcher\<close> of \<^verbatim>\<open>SearchAllJQL\<close>.\<close>

definition SearchAllJQL_fetcher ::
  "world \<Rightarrow> SearchAllJQLConfig \<Rightarrow> string \<Rightarrow> PageResult \<times> error option" where
  "SearchAllJQL_fetcher w cfg cursor =
     (let client = NewClient \<lparr>cfg_BaseURL = sa_BaseURL cfg, cfg_Email = sa_Email cfg,
                              cfg_APIToken = sa_APIToken cfg, cfg_Timeout = 0\<rparr>
      in case (if cursor \<noteq> [] then Atoi cursor else Inr 0) of
           Inl err \<Rightarrow> (zero_PageResult, Some (WrapError ''parse cursor'' err))
         | Inr startAt \<Rightarrow>
             (let maxResults = (if sa_MaxResults cfg \<le>s 0 then 100 else sa_MaxResults cfg)
              in case SearchJQLWithParams w client
                        \<lparr>JQL = sa_JQL cfg, StartAt = startAt, MaxResults = maxResults\<rparr> of
                   Inl err \<Rightarrow> (zero_PageResult, Some (WrapError ''search jql'' err))
                 | Inr result \<Rightarrow>
                     (let nextStartAt = startAt + of_nat (length (Issues result));
                          hasMore = (nextStartAt <s Total result);
                          nextCursor = (if hasMore then Itoa nextStartAt else [])
                      in (\<lparr>Items = Issues result, NextCursor = nextCursor,
                           HasMore = hasMore\<rparr>, None))))"

section \<open>The pagination engine\<close>

text \<open>
  \<^verbatim>\<open>FetchAllIssues\<close> and \<^verbatim>\<open>SearchAllJQL\<close> hand their fetcher to \<^verbatim>\<open>core.PaginateWithConfig\<close>,
  whose code is not among the source files; its loop is taken from section 4.1 of the
  specification. The fetch function performs a request, so the engine's fetch function
  takes the number of calls made before it: call \<open>k\<close> meets the world \<open>W k\<close>.
\<close>

record PaginateState =
  cursor :: string
  pageCount :: nat
  allItems :: "Issue list"

record PaginateOutput =
  out_Items :: "Issue list"
  out_PageCount :: nat
  out_FinalCursor :: string

datatype step_result = Continue PaginateState | Done "error + PaginateOutput"

type_synonym fetch_fun = "nat \<Rightarrow> string \<Rightarrow> PageResult \<times> error option"

definition initial_state :: PaginateState where
  "initial_state = \<lparr>cursor = [], pageCount = 0, allItems = []\<rparr>"

definition next_state :: "PaginateState \<Rightarrow> PageResult \<Rightarrow> PaginateState" where
  "next_state st page =
     \<lparr>cursor = NextCursor page, pageCount = Suc (pageCount st),
      allItems = allItems st @ Items page\<rparr>"

text \<open>
  Modelled from the spec: one iteration of the loop of \<^verbatim>\<open>core.PaginateWithConfig\<close>
  (section 4.1). It calls the fetch function with the current cursor and appends the
  page's items to the accumulator; if the page has more, the page's cursor becomes the
  current cursor and the loop continues, otherwise the loop ends with the accumulated
  items, the number of pages and the empty final cursor. An error of the fetch function
  ends the run with that error and nothing of what was accumulated (section 7). The step
  continues whenever the page has more, whatever the number of its items. Time is not
  part of the model: the cancellation check between pages (section 5) and the time limit
  the two nodes declare to the runtime (\<^verbatim>\<open>WithTimeout\<close>) are left out, and so is the
  sentence of section 4.1 on a page without items.
\<close>

definition paginate_step :: "fetch_fun \<Rightarrow> PaginateState \<Rightarrow> step_result" where
  "paginate_step fetch st =
     (case fetch (pageCount st) (cursor st) of
        (page, Some err) \<Rightarrow> Done (Inl err)
      | (page, None) \<Rightarrow>
          if HasMore page then Continue (next_state st page)
          else Done (Inr \<lparr>out_Items = allItems st @ Items page,
                          out_PageCount = Suc (pageCount st), out_FinalCursor = []\<rparr>))"

text \<open>
  Modelled from the spec: the loop of \<^verbatim>\<open>core.PaginateWithConfig\<close>, the iteration above
  repeated until it ends. The loop may run forever; \<open>None\<close> is the run that never
  returns.
\<close>

partial_function (option) paginate_loop ::
  "fetch_fun \<Rightarrow> PaginateState \<Rightarrow> (error + PaginateOutput) option" where
  "paginate_loop fetch st =
     (case paginate_step fetch st of
        Done r \<Rightarrow> Some r
      | Continue st' \<Rightarrow> paginate_loop fetch st')"

text \<open>Modelled from the spec: the run of \<^verbatim>\<open>core.PaginateWithConfig\<close>, which starts with
  the empty cursor, no page fetched and nothing accumulated.\<close>

definition PaginateAll :: "fetch_fun \<Rightarrow> (error + PaginateOutput) option" where
  "PaginateAll fetch = paginate_loop fetch initial_state"

text \<open>
  Modelled from the spec: the calls of a run of that loop, in order.
  \<open>run fetch calls st\<close> holds when the loop, started at \<open>initial_state\<close>, has made the
  fetch calls \<open>calls\<close> (the cursor passed and the page returned, oldest first) and is
  about to make the next one from the state \<open>st\<close>.
\<close>

inductive run :: "fetch_fun \<Rightarrow> (string \<times> PageResult) list \<Rightarrow> PaginateState \<Rightarrow> bool"
  for fetch :: fetch_fun where
  run_start: "run fetch [] initial_state"
| run_step: "run fetch calls st \<Longrightarrow> fetch (pageCount st) (cursor st) = (page, None) \<Longrightarrow>
     paginate_step fetch st = Continue st' \<Longrightarrow> run fetch (calls @ [(cursor st, page)]) st'"

code_pred run .

text \<open>
  \<^verbatim>\<open>FetchAllIssues\<close> and \<^verbatim>\<open>SearchAllJQL\<close>: the engine around the two fetchers. The
  configuration \<open>cfg\<close> is the one the engine hands to the fetcher with each call, taken
  from the input of the node; the argument \<^verbatim>\<open>config\<close> of the two Go functions is not used
  by their bodies. \<^verbatim>\<open>WithTimeout(30 * time.Minute)\<close> bounds the run in time and has no
  counterpart here.
\<close>

definition FetchAllIssues ::
  "(nat \<Rightarrow> world) \<Rightarrow> FetchAllIssuesConfig \<Rightarrow> (error + PaginateOutput) option" where
  "FetchAllIssues W cfg = PaginateAll (\<lambda>k. FetchAllIssues_fetcher (W k) cfg)"

definition SearchAllJQL ::
  "(nat \<Rightarrow> world) \<Rightarrow> SearchAllJQLConfig \<Rightarrow> (error + PaginateOutput) option" where
  "SearchAllJQL W cfg = PaginateAll (\<lambda>k. SearchAllJQL_fetcher (W k) cfg)"

section \<open>The specification's wording of the content rule\<close>

text \<open>
  Section 4.3 of the specification: the content is the summary; if the description is
  non-empty it is appended after a blank line; then, for each comment in original order,
  a blank line and \<^verbatim>\<open>[Comment by <author display name>]: <body>\<close>.
\<close>

definition comment_segment :: "Comment \<Rightarrow> string" where
  "comment_segment c =
     ''\<newline>\<newline>[Comment by '' @ DisplayName (Author c) @ '']: '' @ Body c"

definition issue_comments :: "Issue \<Rightarrow> Comment list" where
  "issue_comments issue =
     (case Comments (Fields issue) of None \<Rightarrow> [] | Some cs \<Rightarrow> Comments_Comments cs)"

definition spec_content :: "Issue \<Rightarrow> string" where
  "spec_content issue =
     Summary (Fields issue)
     @ (if Description (Fields issue) = [] then []
        else ''\<newline>\<newline>'' @ Description (Fields issue))
     @ concat (map comment_segment (issue_comments issue))"

section \<open>Sample inputs\<close>

text \<open>Concrete records, worlds and configurations at which the theorems are evaluated.\<close>

definition alice :: User where
  "alice = \<lparr>DisplayName = ''Alice'', EmailAddress = ''alice@example.com'', AccountID = ''a1''\<rparr>"

definition confirmed_comment :: Comment where
  "confirmed_comment =
     \<lparr>Comment_ID = ''10'', Body = ''Confirmed.'', Author = alice,
      Comment_Created = ''2024-01-15T10:30:00.000+0000'',
      Comment_Updated = ''2024-01-15T10:30:00.000+0000''\<rparr>"

definition bug_fields :: IssueFields where
  "bug_fields =
     \<lparr>Summary = ''Bug'', Description = ''Steps...'',
      Status = \<lparr>Status_Name = ''Open'', Status_ID = ''1''\<rparr>,
      IssueType = \<lparr>IssueType_Name = ''Bug'', IssueType_ID = ''2''\<rparr>,
      Project = \<lparr>Project_Key = ''PRJ'', Project_Name = ''Project'', Project_ID = ''3''\<rparr>,
      Created = ''2024-01-15T10:30:00.000+0000'',
      Updated = ''2024-01-15T10:30:00.000+0000'',
      Labels = [], Priority = None, Assignee = None, Reporter = None,
      Comments = Some \<lparr>Comments_Total = 1, Comments_Comments = [confirmed_comment]\<rparr>\<rparr>"

definition bug_issue :: Issue where
  "bug_issue =
     \<lparr>ID = ''1001'', Key = ''PRJ-1'',
      Self = ''https://jira.example.com/rest/api/3/issue/1001'', Fields = bug_fields\<rparr>"

text \<open>The same issue without a comments container and with a timestamp in another
  format.\<close>

definition bare_issue :: Issue where
  "bare_issue = bug_issue\<lparr>Fields := bug_fields\<lparr>Comments := None, Updated := ''yesterday''\<rparr>\<rparr>"

definition numbered_issue :: "string \<Rightarrow> Issue" where
  "numbered_issue key = bug_issue\<lparr>Key := key\<rparr>"

text \<open>
  A world in which the one well-formed timestamp parses, every URL is accepted and the
  server answers 403 with the body \<^verbatim>\<open>Forbidden\<close>.
\<close>

definition forbidden_world :: world where
  "forbidden_world =
     \<lparr>time_Parse = (\<lambda>layout v.
          if layout = updated_layout \<and> v = ''2024-01-15T10:30:00.000+0000''
          then Inr \<lparr>wall = 0, ext = 63840911400, loc = None\<rparr>
          else Inl (ErrorString ''cannot parse time'')),
      time_Format = (\<lambda>t layout. ''2024-01-15 10:30''),
      QueryEscape = (\<lambda>s. s),
      base64 = (\<lambda>s. s),
      NewRequest_err = (\<lambda>url. None),
      Do = (\<lambda>req. Inr \<lparr>StatusCode = 403, resp_Body = (''Forbidden'', None)\<rparr>),
      decode_SearchResult = (\<lambda>body. Inl (ErrorString ''EOF'')),
      decode_Issue = (\<lambda>body. Inl (ErrorString ''EOF''))\<rparr>"

text \<open>A world whose server knows no issue: every request is answered 404.\<close>

definition missing_world :: world where
  "missing_world =
     forbidden_world\<lparr>Do := (\<lambda>req. Inr \<lparr>StatusCode = 404,
        resp_Body = (''Issue does not exist'', None)\<rparr>)\<rparr>"

definition found_world :: world where
  "found_world =
     forbidden_world\<lparr>Do := (\<lambda>req. Inr \<lparr>StatusCode = 200, resp_Body = (''{}'', None)\<rparr>),
       decode_Issue := (\<lambda>body. Inr bug_issue)\<rparr>"

definition sample_client :: Client where
  "sample_client =
     \<lparr>baseURL = ''https://jira.example.com'', email = ''bot@example.com'',
      apiToken = ''secret'', httpClient_Timeout = 30 * 1000000000\<rparr>"

definition sample_params :: SearchJQLParams where
  "sample_params = \<lparr>JQL = ''project = PRJ'', StartAt = 0, MaxResults = 100\<rparr>"

definition sample_input :: FetchIssueInput where
  "sample_input =
     \<lparr>fi_BaseURL = ''https://jira.example.com'', fi_Email = ''bot@example.com'',
      fi_APIToken = ''secret'', IssueKey = ''PRJ-404''\<rparr>"

definition sample_config :: FetchAllIssuesConfig where
  "sample_config =
     \<lparr>fa_BaseURL = ''https://jira.example.com'', fa_Email = ''bot@example.com'',
      fa_APIToken = ''secret'', fa_Project = ''PRJ'', fa_Since = None, fa_MaxResults = 2\<rparr>"

definition sample_jql_config :: SearchAllJQLConfig where
  "sample_jql_config =
     \<lparr>sa_BaseURL = ''https://jira.example.com'', sa_Email = ''bot@example.com'',
      sa_APIToken = ''secret'', sa_JQL = ''project = PRJ'', sa_MaxResults = 0\<rparr>"

text \<open>
  A server that answers call \<open>k\<close> with the \<open>k\<close>-th page of a fixed sequence and always
  reports the same total; past the end of the sequence it has nothing left to send.
\<close>

definition paged_world :: "Issue list list \<Rightarrow> go_int \<Rightarrow> nat \<Rightarrow> world" where
  "paged_world pages tot k =
     forbidden_world\<lparr>Do := (\<lambda>req. Inr \<lparr>StatusCode = 200, resp_Body = (''{}'', None)\<rparr>),
       decode_SearchResult := (\<lambda>body. Inr \<lparr>res_StartAt = 0, res_MaxResults = 2,
          Total = tot, Issues = (if k < length pages then pages ! k else [])\<rparr>)\<rparr>"

definition three_issues :: "Issue list list" where
  "three_issues = [[numbered_issue ''PRJ-1'', numbered_issue ''PRJ-2''], [numbered_issue ''PRJ-3'']]"

section \<open>The requests the client sends\<close>

text \<open>The request \<^verbatim>\<open>SearchJQLWithParams\<close> hands to the transport, and the one of
  \<^verbatim>\<open>GetIssue\<close>: the endpoint, with the authentication headers set.\<close>

definition search_request :: "world \<Rightarrow> Client \<Rightarrow> SearchJQLParams \<Rightarrow> Request" where
  "search_request w c params =
     setAuth w c \<lparr>Method = ''GET'',
       URL = search_endpoint w c params
               (if MaxResults params \<le>s 0 then 50 else MaxResults params),
       Header = Map.empty\<rparr>"

definition issue_request :: "world \<Rightarrow> Client \<Rightarrow> string \<Rightarrow> Request" where
  "issue_request w c issueKey =
     setAuth w c \<lparr>Method = ''GET'', URL = issue_endpoint c issueKey, Header = Map.empty\<rparr>"

definition client_of_input :: "FetchIssueInput \<Rightarrow> Client" where
  "client_of_input input =
     NewClient \<lparr>cfg_BaseURL = fi_BaseURL input, cfg_Email = fi_Email input,
                cfg_APIToken = fi_APIToken input, cfg_Timeout = 0\<rparr>"

section \<open>Names for parts of the fetchers\<close>

text \<open>
  The two fetchers differ only in the query they send. What they share is named here,
  for the statements below: the offset a cursor stands for, the client a configuration
  gives, the search a fetcher performs at an offset, and the page built from a search
  result.
\<close>

definition start_offset :: "string \<Rightarrow> error + go_int" where
  "start_offset c = (if c \<noteq> [] then Atoi c else Inr 0)"

definition fa_client :: "FetchAllIssuesConfig \<Rightarrow> Client" where
  "fa_client cfg =
     NewClient \<lparr>cfg_BaseURL = fa_BaseURL cfg, cfg_Email = fa_Email cfg,
                cfg_APIToken = fa_APIToken cfg, cfg_Timeout = 0\<rparr>"

definition sa_client :: "SearchAllJQLConfig \<Rightarrow> Client" where
  "sa_client cfg =
     NewClient \<lparr>cfg_BaseURL = sa_BaseURL cfg, cfg_Email = sa_Email cfg,
                cfg_APIToken = sa_APIToken cfg, cfg_Timeout = 0\<rparr>"

definition fa_search :: "world \<Rightarrow> FetchAllIssuesConfig \<Rightarrow> go_int \<Rightarrow> error + SearchResult" where
  "fa_search w cfg startAt =
     SearchJQLWithParams w (fa_client cfg)
       \<lparr>JQL = project_jql w (fa_Project cfg) (fa_Since cfg), StartAt = startAt,
        MaxResults = (if fa_MaxResults cfg \<le>s 0 then 100 else fa_MaxResults cfg)\<rparr>"

definition sa_search :: "world \<Rightarrow> SearchAllJQLConfig \<Rightarrow> go_int \<Rightarrow> error + SearchResult" where
  "sa_search w cfg startAt =
     SearchJQLWithParams w (sa_client cfg)
       \<lparr>JQL = sa_JQL cfg, StartAt = startAt,
        MaxResults = (if sa_MaxResults cfg \<le>s 0 then 100 else sa_MaxResults cfg)\<rparr>"

definition page_result :: "go_int \<Rightarrow> SearchResult \<Rightarrow> PageResult" where
  "page_result startAt result =
     (let nextStartAt = startAt + of_nat (length (Issues result));
          hasMore = (nextStartAt <s Total result)
      in \<lparr>Items = Issues result, NextCursor = (if hasMore then Itoa nextStartAt else []),
          HasMore = hasMore\<rparr>)"

text \<open>
  A server that answers the \<open>k\<close>-th search of a run with the \<open>k\<close>-th page of a
  sequence and always reports the total \<open>tot\<close>.
\<close>

definition serves_pages :: "(nat \<Rightarrow> world) \<Rightarrow> Client \<Rightarrow> Issue list list \<Rightarrow> go_int \<Rightarrow> bool" where
  "serves_pages W c pages tot =
     (\<forall>k < length pages. \<forall>params. \<exists>r.
        SearchJQLWithParams (W k) c params = Inr r \<and> Issues r = pages ! k \<and> Total r = tot)"

text \<open>The first page of \<open>three_issues\<close> as a fetcher returns it, and the state of the
  engine after that page.\<close>

definition first_page :: PageResult where
  "first_page = \<lparr>Items = three_issues ! 0, NextCursor = ''2'', HasMore = True\<rparr>"

definition after_first_page :: PaginateState where
  "after_first_page = \<lparr>cursor = ''2'', pageCount = 1, allItems = three_issues ! 0\<rparr>"

text \<open>The specification's scenario of three pages: 250 issues in pages of 100, 100 and
  50.\<close>

definition spec_pages :: "Issue list list" where
  "spec_pages = [replicate 100 bug_issue, replicate 100 bug_issue, replicate 50 bug_issue]"

section \<open>Decimal strings: Atoi reads back what Itoa writes\<close>

lemma below_ten_cases: "d < 10 \<Longrightarrow> d \<in> {0, 1, 2, 3, 4, 5, 6, 7, 8, 9::nat}"
  by auto

lemma digit_val_digit_char: "d < 10 \<Longrightarrow> digit_val (digit_char d) = d"
  using below_ten_cases [of d] by (auto simp: digit_val_def digit_char_def)

lemma is_digit_digit_char: "d < 10 \<Longrightarrow> is_digit (digit_char d)"
  using below_ten_cases [of d] by (auto simp: is_digit_def digit_char_def)

lemma ParseUint_loop_snoc:
  "ParseUint_loop n (cs @ [c]) =
     (case ParseUint_loop n cs of Inl e \<Rightarrow> Inl e | Inr m \<Rightarrow> ParseUint_loop m [c])"
  by (induction cs arbitrary: n) (auto simp: Let_def)

lemma ParseUint_loop_formatBits:
  "u \<le> maxVal \<Longrightarrow> ParseUint_loop 0 (formatBits u) = Inr u"
proof (induction u rule: formatBits.induct)
  case (1 u)
  show ?case
  proof (cases "u < 10")
    case True
    then show ?thesis using 1(2)
      by (subst formatBits.simps)
         (simp add: is_digit_digit_char digit_val_digit_char cutoff_def maxVal_def)
  next
    case False
    have le: "u div 10 \<le> maxVal" using 1(2) by simp
    have ih: "ParseUint_loop 0 (formatBits (u div 10)) = Inr (u div 10)"
      using 1(1) [OF False le] .
    have nc: "\<not> cutoff \<le> u div 10" using 1(2) by (simp add: cutoff_def maxVal_def)
    show ?thesis using False 1(2) nc
      by (subst formatBits.simps)
         (simp add: ParseUint_loop_snoc ih is_digit_digit_char digit_val_digit_char)
  qed
qed

lemma formatBits_nonempty: "formatBits u \<noteq> []"
  by (subst formatBits.simps) simp

lemma hd_formatBits_digit: "is_digit (hd (formatBits u))"
proof (induction u rule: formatBits.induct)
  case (1 u)
  show ?case
  proof (cases "u < 10")
    case True
    then show ?thesis by (subst formatBits.simps) (simp add: is_digit_digit_char)
  next
    case False
    then show ?thesis using 1 formatBits_nonempty [of "u div 10"]
      by (subst formatBits.simps) simp
  qed
qed

lemma is_digit_not_sign: "is_digit c \<Longrightarrow> c \<noteq> CHR ''+'' \<and> c \<noteq> CHR ''-''"
  by (auto simp: is_digit_def)

lemma ParseUint_formatBits: "u \<le> maxVal \<Longrightarrow> ParseUint (formatBits u) = Inr u"
  by (simp add: ParseUint_def formatBits_nonempty ParseUint_loop_formatBits)

lemma hd_formatBits_not_sign:
  "hd (formatBits u) \<noteq> CHR ''+''" "hd (formatBits u) \<noteq> CHR ''-''"
  using is_digit_not_sign [OF hd_formatBits_digit [of u]] by simp_all

lemma sint_go_int_bounds: "- (2 ^ 63) \<le> sint (i :: go_int)" "sint (i :: go_int) < 2 ^ 63"
  using sint_ge [of i] sint_lt [of i] by simp_all

lemma Atoi_Itoa: "Atoi (Itoa i) = Inr i"
proof (cases "i <s 0")
  case True
  then have neg: "sint i < 0" by (simp add: word_sless_alt)
  define u where "u = nat (- sint i)"
  have u_le: "u \<le> 2 ^ 63" using sint_go_int_bounds(1) [of i] neg by (simp add: u_def)
  then have u_max: "u \<le> maxVal" by (simp add: maxVal_def)
  have rt: "- (of_nat u :: go_int) = i"
    using neg by (simp add: u_def)
  have "Itoa i = CHR ''-'' # formatBits u" using True by (simp add: Itoa_def u_def)
  then show ?thesis using u_le rt
    by (simp add: Atoi_def ParseUint_formatBits [OF u_max])
next
  case False
  then have pos: "0 \<le> sint i" by (simp add: word_sless_alt)
  define u where "u = nat (sint i)"
  have u_lt: "u < 2 ^ 63" using sint_go_int_bounds(2) [of i] pos by (simp add: u_def)
  then have u_max: "u \<le> maxVal" by (simp add: maxVal_def)
  have rt: "(of_nat u :: go_int) = i"
    using pos by (simp add: u_def)
  have "Itoa i = formatBits u" using False by (simp add: Itoa_def u_def)
  then show ?thesis using u_lt rt
    by (simp add: Atoi_def ParseUint_formatBits [OF u_max] hd_formatBits_not_sign
        formatBits_nonempty)
qed

lemma Itoa_nonempty: "Itoa i \<noteq> []"
  by (simp add: Itoa_def formatBits_nonempty)

text \<open>The offset a cursor written by a fetcher decodes to, and the start of a run.\<close>

lemma decode_Itoa: "(if Itoa i \<noteq> [] then Atoi (Itoa i) else Inr 0) = Inr i"
  by (simp add: Itoa_nonempty Atoi_Itoa)

lemma sint_of_nat_go_int: "n < 2 ^ 63 \<Longrightarrow> sint (of_nat n :: go_int) = int n"
  by (simp add: signed_of_nat signed_take_bit_int_eq_self)

lemma go_int_less_of_nat:
  "m < 2 ^ 63 \<Longrightarrow> n < 2 ^ 63 \<Longrightarrow> ((of_nat m :: go_int) <s of_nat n) = (m < n)"
  by (simp add: word_sless_alt sint_of_nat_go_int)

lemma Itoa_of_nat: "n < 2 ^ 63 \<Longrightarrow> Itoa (of_nat n) = formatBits n"
  by (simp add: Itoa_def word_sless_alt sint_of_nat_go_int)

lemmas strconv_eval = Atoi_def ParseUint_def is_digit_def digit_val_def cutoff_def maxVal_def
  Itoa_def formatBits.simps digit_char_def word_sless_alt

lemma Atoi_examples:
  "Atoi ''250'' = Inr 250"
  "Atoi ''-12'' = Inr (- 12)"
  "Atoi ''+12'' = Inr 12"
  "Atoi ''abc'' = Inl (NumError ''Atoi'' ''abc'' ErrSyntax)"
  "Atoi ''1_0'' = Inl (NumError ''Atoi'' ''1_0'' ErrSyntax)"
  "Atoi ''-'' = Inl (NumError ''Atoi'' ''-'' ErrSyntax)"
  "Atoi ''9223372036854775808'' = Inl (NumError ''Atoi'' ''9223372036854775808'' ErrRange)"
  "Atoi ''-9223372036854775808'' = Inr (- 9223372036854775808)"
  by (simp_all add: strconv_eval)

lemma Itoa_examples:
  "Itoa 0 = ''0''"
  "Itoa 100 = ''100''"
  "Itoa 200 = ''200''"
  "Itoa (- 7) = ''-7''"
  by (simp_all add: strconv_eval)

section \<open>Normalization\<close>

lemma foldl_append_comment:
  "foldl append_comment content cs = content @ concat (map comment_segment cs)"
  by (induction cs arbitrary: content) (simp_all add: append_comment_def comment_segment_def)

lemma Content_issueToDocument:
  "Content (issueToDocument w issue) =
     (let content = Summary (Fields issue);
          content = (if Description (Fields issue) \<noteq> []
                     then content @ ''\<newline>\<newline>'' @ Description (Fields issue) else content)
      in case Comments (Fields issue) of
           None \<Rightarrow> content
         | Some cs \<Rightarrow> foldl append_comment content (Comments_Comments cs))"
  by (simp add: issueToDocument_def Let_def)

lemma Metadata_issueToDocument:
  "Metadata (issueToDocument w issue) =
     (let metadata = [''issue_key'' \<mapsto> Key issue,
                      ''project'' \<mapsto> Project_Key (Project (Fields issue)),
                      ''status'' \<mapsto> Status_Name (Status (Fields issue)),
                      ''issue_type'' \<mapsto> IssueType_Name (IssueType (Fields issue))];
          metadata = (case Priority (Fields issue) of
                        None \<Rightarrow> metadata
                      | Some p \<Rightarrow> metadata(''priority'' \<mapsto> Priority_Name p))
      in case Assignee (Fields issue) of
           None \<Rightarrow> metadata
         | Some u \<Rightarrow> metadata(''assignee'' \<mapsto> DisplayName u))"
  by (simp add: issueToDocument_def Let_def)

lemma UpdatedAt_issueToDocument:
  "UpdatedAt (issueToDocument w issue) =
     (if Updated (Fields issue) \<noteq> []
      then (case time_Parse w updated_layout (Updated (Fields issue)) of
              Inl err \<Rightarrow> zero_Time
            | Inr t \<Rightarrow> t)
      else zero_Time)"
  by (simp add: issueToDocument_def Let_def)

lemmas sample_issue_defs = bug_issue_def bug_fields_def confirmed_comment_def alice_def
  bare_issue_def

text \<open>
  C5. The content of the normalized document is the summary, then (only for a non-empty
  description) a blank line and the description, then for each comment in original order
  a blank line and \<^verbatim>\<open>[Comment by <author display name>]: <body>\<close>; the title is the
  summary. The loop of the source computes what the specification's wording
  (\<open>spec_content\<close>) says, and on the specification's scenario (summary \<^verbatim>\<open>Bug\<close>, description
  \<^verbatim>\<open>Steps...\<close>, one comment by Alice with body \<^verbatim>\<open>Confirmed.\<close>) the content is the string
  the specification gives.
\<close>

theorem issueToDocument_content:
  "Content (issueToDocument w issue) = spec_content issue
   \<and> Title (issueToDocument w issue) = Summary (Fields issue)
   \<and> Content (issueToDocument w bug_issue) =
       ''Bug\<newline>\<newline>Steps...\<newline>\<newline>[Comment by Alice]: Confirmed.''"
proof -
  have general: "Content (issueToDocument w i) = spec_content i" for i
    by (simp add: Content_issueToDocument spec_content_def issue_comments_def
        foldl_append_comment split: option.split)
  have title: "Title (issueToDocument w issue) = Summary (Fields issue)"
    by (simp add: issueToDocument_def Let_def)
  have scenario: "spec_content bug_issue =
      ''Bug\<newline>\<newline>Steps...\<newline>\<newline>[Comment by Alice]: Confirmed.''"
    by (simp add: spec_content_def issue_comments_def comment_segment_def sample_issue_defs)
  show ?thesis using general [of issue] general [of bug_issue] title scenario by simp
qed

text \<open>
  C6. The metadata of the normalized document always binds \<^verbatim>\<open>issue_key\<close>, \<^verbatim>\<open>project\<close>,
  \<^verbatim>\<open>status\<close> and \<^verbatim>\<open>issue_type\<close> to the corresponding fields of the record; it binds
  \<^verbatim>\<open>priority\<close> (and likewise \<^verbatim>\<open>assignee\<close>) exactly when the record has that field, to the
  field's name, and has no such key when the field is absent.
\<close>

theorem issueToDocument_metadata:
  "(let m = Metadata (issueToDocument w issue) in
      m ''issue_key'' = Some (Key issue)
    \<and> m ''project'' = Some (Project_Key (Project (Fields issue)))
    \<and> m ''status'' = Some (Status_Name (Status (Fields issue)))
    \<and> m ''issue_type'' = Some (IssueType_Name (IssueType (Fields issue)))
    \<and> m ''priority'' = map_option Priority_Name (Priority (Fields issue))
    \<and> m ''assignee'' = map_option DisplayName (Assignee (Fields issue))
    \<and> (''priority'' \<in> dom m) = (Priority (Fields issue) \<noteq> None)
    \<and> (''assignee'' \<in> dom m) = (Assignee (Fields issue) \<noteq> None))"
  by (simp add: Metadata_issueToDocument Let_def dom_def split: option.split)

text \<open>
  C7. When the record's \<^verbatim>\<open>updated\<close> string is absent (empty) or \<^verbatim>\<open>time.Parse\<close> rejects it
  against the fixed layout, the normalized document's \<^verbatim>\<open>UpdatedAt\<close> is the zero time.
  Normalization has no error result: \<open>issueToDocument\<close> is a total function into
  documents, and every pointer the source dereferences is guarded by its nil test.
\<close>

theorem issueToDocument_updatedAt_degrade:
  assumes "Updated (Fields issue) = []
           \<or> isl (time_Parse w updated_layout (Updated (Fields issue)))"
  shows "UpdatedAt (issueToDocument w issue) = zero_Time"
  using assms by (auto simp: UpdatedAt_issueToDocument split: sum.split)

theorem issueToDocument_updatedAt_degrade_witness:
  "isl (time_Parse forbidden_world updated_layout (Updated (Fields bare_issue)))
   \<and> Updated (Fields bare_issue) = ''yesterday''
   \<and> UpdatedAt (issueToDocument forbidden_world bare_issue) = zero_Time
   \<and> UpdatedAt (issueToDocument forbidden_world bug_issue) \<noteq> zero_Time"
proof -
  have unparseable: "isl (time_Parse forbidden_world updated_layout (Updated (Fields bare_issue)))"
    by (simp add: forbidden_world_def sample_issue_defs)
  have parsed: "UpdatedAt (issueToDocument forbidden_world bug_issue) \<noteq> zero_Time"
    by (simp add: UpdatedAt_issueToDocument forbidden_world_def sample_issue_defs zero_Time_def)
  show ?thesis
    using unparseable parsed
      issueToDocument_updatedAt_degrade [of bare_issue forbidden_world, OF disjI2, OF unparseable]
    by (simp add: sample_issue_defs)
qed

text \<open>
  C10. When the record has no comments container (a nil pointer), normalization is
  still defined, and the content is the summary followed, for a non-empty description,
  by a blank line and the description; no comment segment is appended.
\<close>

theorem issueToDocument_no_comments:
  assumes "Comments (Fields issue) = None"
  shows "Content (issueToDocument w issue) =
           Summary (Fields issue)
           @ (if Description (Fields issue) = [] then []
              else ''\<newline>\<newline>'' @ Description (Fields issue))"
  using assms by (simp add: Content_issueToDocument)

theorem issueToDocument_no_comments_witness:
  "Comments (Fields bare_issue) = None
   \<and> Content (issueToDocument forbidden_world bare_issue) = ''Bug\<newline>\<newline>Steps...''"
proof -
  have absent: "Comments (Fields bare_issue) = None"
    by (simp add: sample_issue_defs)
  show ?thesis
    using absent issueToDocument_no_comments [of bare_issue forbidden_world, OF absent]
    by (simp add: sample_issue_defs)
qed

section \<open>The client: responses that are not 200\<close>

lemma URL_setAuth: "URL (setAuth w c req) = URL req"
  by (simp add: setAuth_def)

lemma SearchJQLWithParams_response:
  assumes "NewRequest_err w (URL (search_request w c params)) = None"
    and "Do w (search_request w c params) = Inr resp"
  shows "SearchJQLWithParams w c params =
           (if StatusCode resp \<noteq> 200 then Inl (api_error resp)
            else (case decode_SearchResult w (resp_Body resp) of
                    Inl err \<Rightarrow> Inl (WrapError ''decode response'' err)
                  | Inr result \<Rightarrow> Inr result))"
  using assms
  by (simp add: SearchJQLWithParams_def NewRequestWithContext_def search_request_def
      URL_setAuth Let_def)

lemma GetIssue_response:
  assumes "NewRequest_err w (URL (issue_request w c issueKey)) = None"
    and "Do w (issue_request w c issueKey) = Inr resp"
  shows "GetIssue w c issueKey =
           (if StatusCode resp \<noteq> 200 then Inl (api_error resp)
            else (case decode_Issue w (resp_Body resp) of
                    Inl err \<Rightarrow> Inl (WrapError ''decode response'' err)
                  | Inr issue \<Rightarrow> Inr issue))"
  using assms
  by (simp add: GetIssue_def NewRequestWithContext_def issue_request_def URL_setAuth Let_def)

lemma Error_api_error:
  "Error quote (api_error resp) =
     ''jira API error: status='' @ Itoa (StatusCode resp) @ '' body='' @ fst (resp_Body resp)"
  by (simp add: api_error_def ReadAll_def)

lemma api_error_mentions:
  "sublist (Itoa (StatusCode resp)) (Error quote (api_error resp))"
  "sublist (fst (resp_Body resp)) (Error quote (api_error resp))"
proof -
  show "sublist (Itoa (StatusCode resp)) (Error quote (api_error resp))"
    unfolding Error_api_error by (rule sublist_appendI)
  have "sublist (fst (resp_Body resp))
          ((''jira API error: status='' @ Itoa (StatusCode resp) @ '' body='')
           @ fst (resp_Body resp) @ [])"
    by (rule sublist_appendI)
  then show "sublist (fst (resp_Body resp)) (Error quote (api_error resp))"
    unfolding Error_api_error by simp
qed

lemma FetchIssueActivity_cases:
  "FetchIssueActivity w input =
     (case GetIssue w (client_of_input input) (IssueKey input) of
        Inl err \<Rightarrow> (zero_FetchIssueOutput, Some (WrapError ''get issue'' err))
      | Inr issue \<Rightarrow> (\<lparr>Document = issueToDocument w issue, Found = True\<rparr>, None))"
  by (simp add: FetchIssueActivity_def client_of_input_def Let_def)

text \<open>
  C8. When the server's response to the search request, or to the single-issue request,
  has a status other than 200, the client returns an error whose message is
  \<^verbatim>\<open>jira API error: status=<code> body=<body>\<close>: it contains the decimal status code and
  the text read from the response body. (Every status that is not a success is other
  than 200.)
\<close>

theorem non_success_response_error:
  assumes "StatusCode resp \<noteq> 200"
  shows "(NewRequest_err w (URL (search_request w c params)) = None
            \<and> Do w (search_request w c params) = Inr resp
          \<longrightarrow> (\<exists>e. SearchJQLWithParams w c params = Inl e
                 \<and> Error quote e = ''jira API error: status='' @ Itoa (StatusCode resp)
                                     @ '' body='' @ fst (resp_Body resp)
                 \<and> sublist (Itoa (StatusCode resp)) (Error quote e)
                 \<and> sublist (fst (resp_Body resp)) (Error quote e)))
       \<and> (NewRequest_err w (URL (issue_request w c issueKey)) = None
            \<and> Do w (issue_request w c issueKey) = Inr resp
          \<longrightarrow> (\<exists>e. GetIssue w c issueKey = Inl e
                 \<and> Error quote e = ''jira API error: status='' @ Itoa (StatusCode resp)
                                     @ '' body='' @ fst (resp_Body resp)
                 \<and> sublist (Itoa (StatusCode resp)) (Error quote e)
                 \<and> sublist (fst (resp_Body resp)) (Error quote e)))"
proof (intro conjI impI)
  assume "NewRequest_err w (URL (search_request w c params)) = None
          \<and> Do w (search_request w c params) = Inr resp"
  then have "SearchJQLWithParams w c params = Inl (api_error resp)"
    using assms by (simp add: SearchJQLWithParams_response)
  then show "\<exists>e. SearchJQLWithParams w c params = Inl e
      \<and> Error quote e = ''jira API error: status='' @ Itoa (StatusCode resp)
                          @ '' body='' @ fst (resp_Body resp)
      \<and> sublist (Itoa (StatusCode resp)) (Error quote e)
      \<and> sublist (fst (resp_Body resp)) (Error quote e)"
    using Error_api_error [of quote resp] api_error_mentions [of resp quote] by simp
next
  assume "NewRequest_err w (URL (issue_request w c issueKey)) = None
          \<and> Do w (issue_request w c issueKey) = Inr resp"
  then have "GetIssue w c issueKey = Inl (api_error resp)"
    using assms by (simp add: GetIssue_response)
  then show "\<exists>e. GetIssue w c issueKey = Inl e
      \<and> Error quote e = ''jira API error: status='' @ Itoa (StatusCode resp)
                          @ '' body='' @ fst (resp_Body resp)
      \<and> sublist (Itoa (StatusCode resp)) (Error quote e)
      \<and> sublist (fst (resp_Body resp)) (Error quote e)"
    using Error_api_error [of quote resp] api_error_mentions [of resp quote] by simp
qed

text \<open>The specification's scenario: status 403 with the body \<^verbatim>\<open>Forbidden\<close>.\<close>

theorem non_success_response_error_witness:
  "(\<exists>e. SearchJQLWithParams forbidden_world sample_client sample_params = Inl e
        \<and> Error id e = ''jira API error: status=403 body=Forbidden''
        \<and> sublist ''403'' (Error id e) \<and> sublist ''Forbidden'' (Error id e))
   \<and> (\<exists>e. GetIssue forbidden_world sample_client ''PRJ-1'' = Inl e
        \<and> Error id e = ''jira API error: status=403 body=Forbidden''
        \<and> sublist ''403'' (Error id e) \<and> sublist ''Forbidden'' (Error id e))"
proof -
  define resp :: Response where "resp = \<lparr>StatusCode = 403, resp_Body = (''Forbidden'', None)\<rparr>"
  have status: "StatusCode resp \<noteq> 200" by (simp add: resp_def)
  have code: "Itoa (StatusCode resp) = ''403''" by (simp add: resp_def strconv_eval)
  have body: "fst (resp_Body resp) = ''Forbidden''" by (simp add: resp_def)
  have search:
    "NewRequest_err forbidden_world (URL (search_request forbidden_world sample_client sample_params)) = None
     \<and> Do forbidden_world (search_request forbidden_world sample_client sample_params) = Inr resp"
    by (simp add: forbidden_world_def resp_def)
  have issue:
    "NewRequest_err forbidden_world (URL (issue_request forbidden_world sample_client ''PRJ-1'')) = None
     \<and> Do forbidden_world (issue_request forbidden_world sample_client ''PRJ-1'') = Inr resp"
    by (simp add: forbidden_world_def resp_def)
  show ?thesis
    using non_success_response_error
      [OF status, of forbidden_world sample_client sample_params id "''PRJ-1''"]
      search issue
    unfolding code body by simp
qed

text \<open>
  C9, as the code has it. \<^verbatim>\<open>FetchIssueActivity\<close> returns \<^verbatim>\<open>Found\<close> next to the document
  and the error, and \<^verbatim>\<open>Found\<close> is true exactly when there is no error: there is no
  outcome with \<^verbatim>\<open>Found = false\<close> and no error. The answer for an identifier that names no
  record is a response whose status is not 200, and for such a response the activity
  returns the zero output (whose \<^verbatim>\<open>Found\<close> is false) with the error of \<^verbatim>\<open>GetIssue\<close>
  under the label \<^verbatim>\<open>get issue\<close>; with status 200 and a decodable body it returns the
  normalized document with \<^verbatim>\<open>Found = true\<close>.
\<close>

theorem FetchIssueActivity_found_iff_no_error:
  "Found (fst (FetchIssueActivity w input)) = (snd (FetchIssueActivity w input) = None)
   \<and> (NewRequest_err w (URL (issue_request w (client_of_input input) (IssueKey input))) = None
        \<and> Do w (issue_request w (client_of_input input) (IssueKey input)) = Inr resp
        \<and> StatusCode resp \<noteq> 200
      \<longrightarrow> FetchIssueActivity w input =
            (zero_FetchIssueOutput, Some (WrapError ''get issue'' (api_error resp))))
   \<and> (NewRequest_err w (URL (issue_request w (client_of_input input) (IssueKey input))) = None
        \<and> Do w (issue_request w (client_of_input input) (IssueKey input)) = Inr resp
        \<and> StatusCode resp = 200 \<and> decode_Issue w (resp_Body resp) = Inr issue
      \<longrightarrow> FetchIssueActivity w input =
            (\<lparr>Document = issueToDocument w issue, Found = True\<rparr>, None))"
proof (intro conjI impI)
  show "Found (fst (FetchIssueActivity w input)) = (snd (FetchIssueActivity w input) = None)"
    by (simp add: FetchIssueActivity_cases zero_FetchIssueOutput_def split: sum.split)
next
  assume "NewRequest_err w (URL (issue_request w (client_of_input input) (IssueKey input))) = None
        \<and> Do w (issue_request w (client_of_input input) (IssueKey input)) = Inr resp
        \<and> StatusCode resp \<noteq> 200"
  then have "GetIssue w (client_of_input input) (IssueKey input) = Inl (api_error resp)"
    by (simp add: GetIssue_response)
  then show "FetchIssueActivity w input =
      (zero_FetchIssueOutput, Some (WrapError ''get issue'' (api_error resp)))"
    by (simp add: FetchIssueActivity_cases)
next
  assume "NewRequest_err w (URL (issue_request w (client_of_input input) (IssueKey input))) = None
        \<and> Do w (issue_request w (client_of_input input) (IssueKey input)) = Inr resp
        \<and> StatusCode resp = 200 \<and> decode_Issue w (resp_Body resp) = Inr issue"
  then have "GetIssue w (client_of_input input) (IssueKey input) = Inr issue"
    by (simp add: GetIssue_response)
  then show "FetchIssueActivity w input =
      (\<lparr>Document = issueToDocument w issue, Found = True\<rparr>, None)"
    by (simp add: FetchIssueActivity_cases)
qed

theorem FetchIssueActivity_found_iff_no_error_witness:
  "FetchIssueActivity missing_world (sample_input\<lparr>IssueKey := ''PRJ-0''\<rparr>) =
     (zero_FetchIssueOutput,
      Some (WrapError ''get issue''
        (ErrorString ''jira API error: status=404 body=Issue does not exist'')))
   \<and> \<not> Found (fst (FetchIssueActivity missing_world (sample_input\<lparr>IssueKey := ''PRJ-0''\<rparr>)))
   \<and> FetchIssueActivity found_world (sample_input\<lparr>IssueKey := ''PRJ-1''\<rparr>) =
       (\<lparr>Document = issueToDocument found_world bug_issue, Found = True\<rparr>, None)"
proof -
  define missing :: Response
    where "missing = \<lparr>StatusCode = 404, resp_Body = (''Issue does not exist'', None)\<rparr>"
  define present :: Response
    where "present = \<lparr>StatusCode = 200, resp_Body = (''{}'', None)\<rparr>"
  define gone where "gone = sample_input\<lparr>IssueKey := ''PRJ-0''\<rparr>"
  define there where "there = sample_input\<lparr>IssueKey := ''PRJ-1''\<rparr>"
  have err: "api_error missing =
      ErrorString ''jira API error: status=404 body=Issue does not exist''"
    by (simp add: api_error_def ReadAll_def missing_def strconv_eval)
  have absent:
    "NewRequest_err missing_world
        (URL (issue_request missing_world (client_of_input gone) (IssueKey gone))) = None
     \<and> Do missing_world (issue_request missing_world (client_of_input gone) (IssueKey gone))
         = Inr missing
     \<and> StatusCode missing \<noteq> 200"
    by (simp add: missing_world_def forbidden_world_def missing_def)
  have served:
    "NewRequest_err found_world
        (URL (issue_request found_world (client_of_input there) (IssueKey there))) = None
     \<and> Do found_world (issue_request found_world (client_of_input there) (IssueKey there))
         = Inr present
     \<and> StatusCode present = 200 \<and> decode_Issue found_world (resp_Body present) = Inr bug_issue"
    by (simp add: found_world_def forbidden_world_def present_def)
  have first: "FetchIssueActivity missing_world gone =
      (zero_FetchIssueOutput, Some (WrapError ''get issue'' (api_error missing)))"
    using FetchIssueActivity_found_iff_no_error [of missing_world gone missing] absent
    by blast
  have second: "FetchIssueActivity found_world there =
      (\<lparr>Document = issueToDocument found_world bug_issue, Found = True\<rparr>, None)"
    using FetchIssueActivity_found_iff_no_error [of found_world there present bug_issue] served
    by blast
  show ?thesis
    using first second unfolding err gone_def there_def
    by (simp add: zero_FetchIssueOutput_def)
qed

text \<open>
  C9, as the claim states it, fails: at an identifier for which the server answers 404,
  the single-issue activity reports an error, not \<^verbatim>\<open>Found = false\<close> without an error.
\<close>

theorem FetchIssueActivity_missing_counterexample:
  "FetchIssueActivity missing_world sample_input =
     (zero_FetchIssueOutput,
      Some (WrapError ''get issue''
        (ErrorString ''jira API error: status=404 body=Issue does not exist'')))
   \<and> snd (FetchIssueActivity missing_world sample_input) \<noteq> None"
proof -
  have "GetIssue missing_world (client_of_input sample_input) (IssueKey sample_input) =
      Inl (ErrorString ''jira API error: status=404 body=Issue does not exist'')"
    by (simp add: GetIssue_def NewRequestWithContext_def missing_world_def forbidden_world_def
        api_error_def ReadAll_def Let_def strconv_eval)
  then show ?thesis
    by (simp add: FetchIssueActivity_cases)
qed

section \<open>The fetchers, case by case\<close>

lemma FetchAllIssues_fetcher_cases:
  "FetchAllIssues_fetcher w cfg c =
     (case start_offset c of
        Inl err \<Rightarrow> (zero_PageResult, Some (WrapError ''parse cursor'' err))
      | Inr startAt \<Rightarrow>
          (case fa_search w cfg startAt of
             Inl err \<Rightarrow> (zero_PageResult, Some (WrapError ''search jql'' err))
           | Inr result \<Rightarrow> (page_result startAt result, None)))"
  by (simp add: FetchAllIssues_fetcher_def start_offset_def fa_search_def fa_client_def
      page_result_def Let_def split: sum.split)

lemma SearchAllJQL_fetcher_cases:
  "SearchAllJQL_fetcher w cfg c =
     (case start_offset c of
        Inl err \<Rightarrow> (zero_PageResult, Some (WrapError ''parse cursor'' err))
      | Inr startAt \<Rightarrow>
          (case sa_search w cfg startAt of
             Inl err \<Rightarrow> (zero_PageResult, Some (WrapError ''search jql'' err))
           | Inr result \<Rightarrow> (page_result startAt result, None)))"
  by (simp add: SearchAllJQL_fetcher_def start_offset_def sa_search_def sa_client_def
      page_result_def Let_def split: sum.split)

lemma page_result_simps:
  "Items (page_result s r) = Issues r"
  "HasMore (page_result s r) = (s + of_nat (length (Issues r)) <s Total r)"
  "NextCursor (page_result s r) =
     (if s + of_nat (length (Issues r)) <s Total r
      then Itoa (s + of_nat (length (Issues r))) else [])"
  by (simp_all add: page_result_def Let_def)

lemma start_offset_Itoa: "start_offset (Itoa i) = Inr i"
  by (simp add: start_offset_def decode_Itoa)

lemma start_offset_empty: "start_offset [] = Inr 0"
  by (simp add: start_offset_def)

text \<open>What the engine needs to know of a fetch function: a page that has more carries
  the cursor of the offset after its items.\<close>

lemma FetchAllIssues_fetcher_next:
  assumes "FetchAllIssues_fetcher w cfg c = (page, None)" and "HasMore page"
  shows "\<exists>s. start_offset c = Inr s \<and> NextCursor page = Itoa (s + of_nat (length (Items page)))"
  using assms
  by (auto simp: FetchAllIssues_fetcher_cases page_result_simps split: sum.splits)

lemma SearchAllJQL_fetcher_next:
  assumes "SearchAllJQL_fetcher w cfg c = (page, None)" and "HasMore page"
  shows "\<exists>s. start_offset c = Inr s \<and> NextCursor page = Itoa (s + of_nat (length (Items page)))"
  using assms
  by (auto simp: SearchAllJQL_fetcher_cases page_result_simps split: sum.splits)

section \<open>The loop\<close>

lemma paginate_step_Continue:
  "paginate_step fetch st = Continue st' \<longleftrightarrow>
     (\<exists>page. fetch (pageCount st) (cursor st) = (page, None) \<and> HasMore page
             \<and> st' = next_state st page)"
  by (auto simp: paginate_step_def split: prod.splits option.splits if_splits)

lemma paginate_loop_Continue:
  "paginate_step fetch st = Continue st' \<Longrightarrow> paginate_loop fetch st = paginate_loop fetch st'"
  by (subst paginate_loop.simps) simp

lemma paginate_loop_Done:
  "paginate_step fetch st = Done r \<Longrightarrow> paginate_loop fetch st = Some r"
  by (subst paginate_loop.simps) simp

lemma concat_empty_lengths: "sum_list (map length xss) = 0 \<Longrightarrow> concat xss = []"
  by (induction xss) auto

lemma nonempty_pages_sum: "\<forall>p \<in> set xss. p \<noteq> [] \<Longrightarrow> sum_list (map length xss) = 0 \<Longrightarrow> xss = []"
  by (cases xss) auto

text \<open>A run against a server that hands out the pages \<open>rest\<close> one call after the other,
  from a state that has accumulated everything before them.\<close>

lemma paginate_loop_pages:
  fixes fetch :: fetch_fun
  assumes "\<forall>i < length rest. \<forall>c s. start_offset c = Inr s \<longrightarrow>
             (\<exists>r. fetch (k + i) c = (page_result s r, None) \<and> Issues r = rest ! i
                   \<and> Total r = of_nat n)"
    and "rest \<noteq> []"
    and "start_offset (cursor st) = Inr (of_nat (length (allItems st)))"
    and "pageCount st = k"
    and "length (allItems st) + sum_list (map length rest) = n"
    and "n < 2 ^ 63"
  shows "\<exists>m. paginate_loop fetch st =
               Some (Inr \<lparr>out_Items = allItems st @ concat rest, out_PageCount = m,
                          out_FinalCursor = []\<rparr>)
             \<and> k < m \<and> m \<le> k + length rest
             \<and> ((\<forall>p \<in> set rest. p \<noteq> []) \<longrightarrow> m = k + length rest)"
  using assms
proof (induction rest arbitrary: st k)
  case Nil
  then show ?case by simp
next
  case (Cons p rest')
  let ?la = "length (allItems st)"
  let ?lp = "length p"
  from Cons.prems(1) [rule_format, of 0 "cursor st" "of_nat ?la"] Cons.prems(3)
  obtain r where r: "fetch k (cursor st) = (page_result (of_nat ?la) r, None)"
      "Issues r = p" "Total r = of_nat n"
    by auto
  let ?page = "page_result (of_nat ?la) r"
  have le: "?la + ?lp \<le> n" using Cons.prems(5) by simp
  have more: "HasMore ?page = (?la + ?lp < n)"
  proof -
    have "HasMore ?page = ((of_nat (?la + ?lp) :: go_int) <s of_nat n)"
      by (simp add: page_result_simps r)
    also have "\<dots> = (?la + ?lp < n)"
      using le Cons.prems(6) by (intro go_int_less_of_nat) simp_all
    finally show ?thesis .
  qed
  show ?case
  proof (cases "?la + ?lp < n")
    case True
    define st' where "st' = next_state st ?page"
    have step: "paginate_step fetch st = Continue st'"
      using r(1) more True Cons.prems(4) by (auto simp: paginate_step_Continue st'_def)
    have items': "allItems st' = allItems st @ p"
      by (simp add: st'_def next_state_def page_result_simps r)
    have count': "pageCount st' = Suc k"
      using Cons.prems(4) by (simp add: st'_def next_state_def)
    have "cursor st' = Itoa (of_nat (?la + ?lp))"
      using more True by (simp add: st'_def next_state_def page_result_simps r)
    then have offset': "start_offset (cursor st') = Inr (of_nat (length (allItems st')))"
      by (simp add: start_offset_Itoa items')
    have rest'_ne: "rest' \<noteq> []"
      using True Cons.prems(5) by auto
    have served': "\<forall>i < length rest'. \<forall>c s. start_offset c = Inr s \<longrightarrow>
        (\<exists>r. fetch (Suc k + i) c = (page_result s r, None) \<and> Issues r = rest' ! i
              \<and> Total r = of_nat n)"
    proof (intro allI impI)
      fix i c s
      assume "i < length rest'" and "start_offset c = Inr s"
      then show "\<exists>r. fetch (Suc k + i) c = (page_result s r, None) \<and> Issues r = rest' ! i
          \<and> Total r = of_nat n"
        using Cons.prems(1) [rule_format, of "Suc i" c s] by simp
    qed
    have sum': "length (allItems st') + sum_list (map length rest') = n"
      using Cons.prems(5) by (simp add: items')
    from Cons.IH [OF served' rest'_ne offset' count' sum' Cons.prems(6)]
    obtain m where m: "paginate_loop fetch st' =
        Some (Inr \<lparr>out_Items = allItems st' @ concat rest', out_PageCount = m,
                   out_FinalCursor = []\<rparr>)"
        "Suc k < m" "m \<le> Suc k + length rest'"
        "(\<forall>p \<in> set rest'. p \<noteq> []) \<longrightarrow> m = Suc k + length rest'"
      by blast
    have "paginate_loop fetch st =
        Some (Inr \<lparr>out_Items = allItems st @ concat (p # rest'), out_PageCount = m,
                   out_FinalCursor = []\<rparr>)"
      using paginate_loop_Continue [OF step] m(1) by (simp add: items')
    then show ?thesis using m(2-4) by auto
  next
    case False
    have split_sum: "sum_list (map length (p # rest')) = ?lp + sum_list (map length rest')"
      by simp
    have rest'_sum: "sum_list (map length rest') = 0"
      using False Cons.prems(5) unfolding split_sum by arith
    have step: "paginate_step fetch st =
        Done (Inr \<lparr>out_Items = allItems st @ p, out_PageCount = Suc k, out_FinalCursor = []\<rparr>)"
      using r(1) more False Cons.prems(4)
      by (simp add: paginate_step_def page_result_simps r)
    have "paginate_loop fetch st =
        Some (Inr \<lparr>out_Items = allItems st @ concat (p # rest'), out_PageCount = Suc k,
                   out_FinalCursor = []\<rparr>)"
      using paginate_loop_Done [OF step] concat_empty_lengths [OF rest'_sum] by simp
    moreover have "(\<forall>q \<in> set (p # rest'). q \<noteq> []) \<longrightarrow> Suc k = k + length (p # rest')"
      using nonempty_pages_sum [OF _ rest'_sum] by auto
    ultimately show ?thesis by auto
  qed
qed

text \<open>The calls of a run: the state after them holds their items and the cursor of the
  offset after them.\<close>

lemma run_invariant:
  fixes fetch :: fetch_fun
  assumes nxt: "\<forall>k c page. fetch k c = (page, None) \<longrightarrow> HasMore page \<longrightarrow>
             (\<exists>s. start_offset c = Inr s
                   \<and> NextCursor page = Itoa (s + of_nat (length (Items page))))"
    and "run fetch calls st"
  shows "allItems st = concat (map (\<lambda>call. Items (snd call)) calls)
         \<and> pageCount st = length calls
         \<and> start_offset (cursor st) = Inr (of_nat (length (allItems st)))
         \<and> (if calls = [] then cursor st = []
            else cursor st = Itoa (of_nat (length (allItems st))))"
  using assms(2)
proof (induction rule: run.induct)
  case run_start
  show ?case by (simp add: initial_state_def start_offset_empty)
next
  case (run_step calls st page st')
  from run_step.hyps(3) run_step.hyps(2)
  have more: "HasMore page" and st': "st' = next_state st page"
    by (auto simp: paginate_step_Continue)
  from nxt [rule_format, OF run_step.hyps(2) more] run_step.IH
  have cur: "NextCursor page = Itoa (of_nat (length (allItems st) + length (Items page)))"
    by auto
  show ?case
    using run_step.IH cur
    by (simp add: st' next_state_def start_offset_Itoa)
qed

lemma length_concat_items:
  "length (concat (map (\<lambda>call. Items (snd call)) calls)) =
     sum_list (map (\<lambda>call. length (Items (snd call))) calls)"
  by (simp add: length_concat comp_def)

text \<open>The states of a run are states of the loop: from each of them the loop computes
  what the whole run computes.\<close>

lemma run_paginate_loop:
  "run fetch calls st \<Longrightarrow> PaginateAll fetch = paginate_loop fetch st"
  by (induction rule: run.induct) (simp_all add: PaginateAll_def paginate_loop_Continue)

section \<open>The sample servers\<close>

lemma SearchJQLWithParams_paged_world:
  "SearchJQLWithParams (paged_world pages tot k) c params =
     Inr \<lparr>res_StartAt = 0, res_MaxResults = 2, Total = tot,
          Issues = (if k < length pages then pages ! k else [])\<rparr>"
  by (simp add: SearchJQLWithParams_def NewRequestWithContext_def paged_world_def
      forbidden_world_def Let_def)

lemma serves_pages_paged_world: "serves_pages (paged_world pages tot) c pages tot"
  by (simp add: serves_pages_def SearchJQLWithParams_paged_world)

lemma three_issues_facts:
  "three_issues \<noteq> []" "sum_list (map length three_issues) = 3"
  "\<forall>p \<in> set three_issues. p \<noteq> []" "length three_issues = 2"
  by (simp_all add: three_issues_def)

section \<open>Fetchers against servers\<close>

lemma fa_fetch_serves:
  assumes "serves_pages W (fa_client cfg) pages tot"
  shows "\<forall>i < length pages. \<forall>c s. start_offset c = Inr s \<longrightarrow>
           (\<exists>r. FetchAllIssues_fetcher (W (0 + i)) cfg c = (page_result s r, None)
                 \<and> Issues r = pages ! i \<and> Total r = tot)"
proof (intro allI impI)
  fix i c s
  assume "i < length pages" and off: "start_offset c = Inr s"
  with assms obtain r where "fa_search (W i) cfg s = Inr r" "Issues r = pages ! i" "Total r = tot"
    unfolding serves_pages_def fa_search_def by blast
  then show "\<exists>r. FetchAllIssues_fetcher (W (0 + i)) cfg c = (page_result s r, None)
      \<and> Issues r = pages ! i \<and> Total r = tot"
    using off by (intro exI [of _ r]) (simp add: FetchAllIssues_fetcher_cases)
qed

lemma sa_fetch_serves:
  assumes "serves_pages W (sa_client cfg) pages tot"
  shows "\<forall>i < length pages. \<forall>c s. start_offset c = Inr s \<longrightarrow>
           (\<exists>r. SearchAllJQL_fetcher (W (0 + i)) cfg c = (page_result s r, None)
                 \<and> Issues r = pages ! i \<and> Total r = tot)"
proof (intro allI impI)
  fix i c s
  assume "i < length pages" and off: "start_offset c = Inr s"
  with assms obtain r where "sa_search (W i) cfg s = Inr r" "Issues r = pages ! i" "Total r = tot"
    unfolding serves_pages_def sa_search_def by blast
  then show "\<exists>r. SearchAllJQL_fetcher (W (0 + i)) cfg c = (page_result s r, None)
      \<and> Issues r = pages ! i \<and> Total r = tot"
    using off by (intro exI [of _ r]) (simp add: SearchAllJQL_fetcher_cases)
qed

lemma paginate_all_pages:
  fixes fetch :: fetch_fun
  assumes "\<forall>i < length pages. \<forall>c s. start_offset c = Inr s \<longrightarrow>
             (\<exists>r. fetch (0 + i) c = (page_result s r, None) \<and> Issues r = pages ! i
                   \<and> Total r = of_nat (sum_list (map length pages)))"
    and "pages \<noteq> []" and "sum_list (map length pages) < 2 ^ 63"
  shows "\<exists>m. PaginateAll fetch =
               Some (Inr \<lparr>out_Items = concat pages, out_PageCount = m, out_FinalCursor = []\<rparr>)
             \<and> length (concat pages) = sum_list (map length pages)
             \<and> 1 \<le> m \<and> m \<le> length pages
             \<and> ((\<forall>p \<in> set pages. p \<noteq> []) \<longrightarrow> m = length pages)"
proof -
  have start: "start_offset (cursor initial_state) = Inr (of_nat (length (allItems initial_state)))"
    by (simp add: initial_state_def start_offset_empty)
  have count: "pageCount initial_state = 0"
    by (simp add: initial_state_def)
  have total: "length (allItems initial_state) + sum_list (map length pages)
      = sum_list (map length pages)"
    by (simp add: initial_state_def)
  from paginate_loop_pages [OF assms(1) assms(2) start count total assms(3)]
  obtain m where "paginate_loop fetch initial_state =
      Some (Inr \<lparr>out_Items = allItems initial_state @ concat pages, out_PageCount = m,
                 out_FinalCursor = []\<rparr>)"
    "0 < m" "m \<le> 0 + length pages" "(\<forall>p \<in> set pages. p \<noteq> []) \<longrightarrow> m = 0 + length pages"
    by blast
  then show ?thesis
    by (auto simp: PaginateAll_def initial_state_def length_concat)
qed

section \<open>Pagination\<close>

text \<open>
  C1. Let the server answer the calls of a run with the pages of a non-empty sequence,
  one page per call, always reporting as total the sum of the page lengths (a value
  that fits Go's \<^verbatim>\<open>int\<close>). Then the full-dataset pagination, for \<^verbatim>\<open>FetchAllIssues\<close> as for
  \<^verbatim>\<open>SearchAllJQL\<close>, returns: it yields exactly the items of all pages, as many as the
  total, and the empty final cursor, after at most one call per page; and after exactly
  one call per page when no page is empty.
\<close>

theorem pagination_returns_every_item:
  assumes "pages \<noteq> []" and "sum_list (map length pages) < 2 ^ 63"
  shows "(serves_pages W (fa_client cfg) pages (of_nat (sum_list (map length pages))) \<longrightarrow>
            (\<exists>m. FetchAllIssues W cfg =
                    Some (Inr \<lparr>out_Items = concat pages, out_PageCount = m,
                               out_FinalCursor = []\<rparr>)
                  \<and> length (concat pages) = sum_list (map length pages)
                  \<and> 1 \<le> m \<and> m \<le> length pages
                  \<and> ((\<forall>p \<in> set pages. p \<noteq> []) \<longrightarrow> m = length pages)))
       \<and> (serves_pages W (sa_client cfg') pages (of_nat (sum_list (map length pages))) \<longrightarrow>
            (\<exists>m. SearchAllJQL W cfg' =
                    Some (Inr \<lparr>out_Items = concat pages, out_PageCount = m,
                               out_FinalCursor = []\<rparr>)
                  \<and> length (concat pages) = sum_list (map length pages)
                  \<and> 1 \<le> m \<and> m \<le> length pages
                  \<and> ((\<forall>p \<in> set pages. p \<noteq> []) \<longrightarrow> m = length pages)))"
proof (intro conjI impI)
  assume "serves_pages W (fa_client cfg) pages (of_nat (sum_list (map length pages)))"
  from paginate_all_pages [OF fa_fetch_serves [OF this] assms]
  show "\<exists>m. FetchAllIssues W cfg =
          Some (Inr \<lparr>out_Items = concat pages, out_PageCount = m, out_FinalCursor = []\<rparr>)
        \<and> length (concat pages) = sum_list (map length pages)
        \<and> 1 \<le> m \<and> m \<le> length pages
        \<and> ((\<forall>p \<in> set pages. p \<noteq> []) \<longrightarrow> m = length pages)"
    by (simp add: FetchAllIssues_def)
next
  assume "serves_pages W (sa_client cfg') pages (of_nat (sum_list (map length pages)))"
  from paginate_all_pages [OF sa_fetch_serves [OF this] assms]
  show "\<exists>m. SearchAllJQL W cfg' =
          Some (Inr \<lparr>out_Items = concat pages, out_PageCount = m, out_FinalCursor = []\<rparr>)
        \<and> length (concat pages) = sum_list (map length pages)
        \<and> 1 \<le> m \<and> m \<le> length pages
        \<and> ((\<forall>p \<in> set pages. p \<noteq> []) \<longrightarrow> m = length pages)"
    by (simp add: SearchAllJQL_def)
qed

text \<open>Three issues in pages of two and one: two calls, three items.\<close>

theorem pagination_returns_every_item_witness:
  "three_issues \<noteq> [] \<and> sum_list (map length three_issues) = 3
   \<and> serves_pages (paged_world three_issues 3) (fa_client sample_config) three_issues 3
   \<and> FetchAllIssues (paged_world three_issues 3) sample_config =
       Some (Inr \<lparr>out_Items = concat three_issues, out_PageCount = 2, out_FinalCursor = []\<rparr>)
   \<and> SearchAllJQL (paged_world three_issues 3) sample_jql_config =
       Some (Inr \<lparr>out_Items = concat three_issues, out_PageCount = 2, out_FinalCursor = []\<rparr>)
   \<and> length (concat three_issues) = 3"
proof -
  have fits: "sum_list (map length three_issues) < 2 ^ 63"
    by (simp add: three_issues_facts)
  have tot: "(of_nat (sum_list (map length three_issues)) :: go_int) = 3"
    by (simp add: three_issues_facts)
  note inst = pagination_returns_every_item
    [OF three_issues_facts(1) fits, of "paged_world three_issues 3" sample_config
      sample_jql_config, unfolded tot]
  show ?thesis
    using inst serves_pages_paged_world [of three_issues 3] three_issues_facts
    by (auto simp: length_concat)
qed

text \<open>
  C2. Each call of a fetcher that starts at the offset \<open>startAt\<close> (zero for the empty
  cursor, the decoded cursor otherwise) and receives a search result returns the result's
  issues; when \<open>startAt + len(issues)\<close> is below the result's total it returns
  \<^verbatim>\<open>HasMore = true\<close> and the cursor \<^verbatim>\<open>Itoa(startAt + len(issues))\<close>, otherwise
  \<^verbatim>\<open>HasMore = false\<close> and the empty cursor. In a run of the engine, the cursor passed to
  the call after the calls \<open>calls\<close> is therefore \<^verbatim>\<open>Itoa\<close> of the sum of the lengths of the
  pages these calls returned (the sum as a Go \<^verbatim>\<open>int\<close>; below \<open>2 ^ 63\<close> that is the decimal
  numeral of the sum), and the cursor of the first call is empty.
\<close>

theorem next_cursor_encodes_items_so_far:
  "(start_offset c = Inr startAt \<and> fa_search w cfg startAt = Inr result \<longrightarrow>
      FetchAllIssues_fetcher w cfg c =
        (\<lparr>Items = Issues result,
          NextCursor = (if startAt + of_nat (length (Issues result)) <s Total result
                        then Itoa (startAt + of_nat (length (Issues result))) else []),
          HasMore = (startAt + of_nat (length (Issues result)) <s Total result)\<rparr>, None))
   \<and> (start_offset c = Inr startAt \<and> sa_search w cfg' startAt = Inr result \<longrightarrow>
      SearchAllJQL_fetcher w cfg' c =
        (\<lparr>Items = Issues result,
          NextCursor = (if startAt + of_nat (length (Issues result)) <s Total result
                        then Itoa (startAt + of_nat (length (Issues result))) else []),
          HasMore = (startAt + of_nat (length (Issues result)) <s Total result)\<rparr>, None))
   \<and> (run (\<lambda>k. FetchAllIssues_fetcher (W k) cfg) calls st \<longrightarrow>
        (if calls = [] then cursor st = []
         else cursor st =
                Itoa (of_nat (sum_list (map (\<lambda>call. length (Items (snd call))) calls)))))
   \<and> (run (\<lambda>k. SearchAllJQL_fetcher (W k) cfg') calls st \<longrightarrow>
        (if calls = [] then cursor st = []
         else cursor st =
                Itoa (of_nat (sum_list (map (\<lambda>call. length (Items (snd call))) calls)))))
   \<and> (n < 2 ^ 63 \<longrightarrow> Itoa (of_nat n) = formatBits n)"
proof (intro conjI impI)
  assume "start_offset c = Inr startAt \<and> fa_search w cfg startAt = Inr result"
  then show "FetchAllIssues_fetcher w cfg c =
        (\<lparr>Items = Issues result,
          NextCursor = (if startAt + of_nat (length (Issues result)) <s Total result
                        then Itoa (startAt + of_nat (length (Issues result))) else []),
          HasMore = (startAt + of_nat (length (Issues result)) <s Total result)\<rparr>, None)"
    by (simp add: FetchAllIssues_fetcher_cases page_result_def Let_def)
next
  assume "start_offset c = Inr startAt \<and> sa_search w cfg' startAt = Inr result"
  then show "SearchAllJQL_fetcher w cfg' c =
        (\<lparr>Items = Issues result,
          NextCursor = (if startAt + of_nat (length (Issues result)) <s Total result
                        then Itoa (startAt + of_nat (length (Issues result))) else []),
          HasMore = (startAt + of_nat (length (Issues result)) <s Total result)\<rparr>, None)"
    by (simp add: SearchAllJQL_fetcher_cases page_result_def Let_def)
next
  assume r: "run (\<lambda>k. FetchAllIssues_fetcher (W k) cfg) calls st"
  have nxt: "\<forall>k c page. FetchAllIssues_fetcher (W k) cfg c = (page, None) \<longrightarrow> HasMore page \<longrightarrow>
      (\<exists>s. start_offset c = Inr s \<and> NextCursor page = Itoa (s + of_nat (length (Items page))))"
    using FetchAllIssues_fetcher_next by blast
  from run_invariant [OF nxt r]
  show "if calls = [] then cursor st = []
        else cursor st =
               Itoa (of_nat (sum_list (map (\<lambda>call. length (Items (snd call))) calls)))"
    by (simp add: length_concat_items)
next
  assume r: "run (\<lambda>k. SearchAllJQL_fetcher (W k) cfg') calls st"
  have nxt: "\<forall>k c page. SearchAllJQL_fetcher (W k) cfg' c = (page, None) \<longrightarrow> HasMore page \<longrightarrow>
      (\<exists>s. start_offset c = Inr s \<and> NextCursor page = Itoa (s + of_nat (length (Items page))))"
    using SearchAllJQL_fetcher_next by blast
  from run_invariant [OF nxt r]
  show "if calls = [] then cursor st = []
        else cursor st =
               Itoa (of_nat (sum_list (map (\<lambda>call. length (Items (snd call))) calls)))"
    by (simp add: length_concat_items)
next
  assume "n < 2 ^ 63"
  then show "Itoa (of_nat n) = formatBits n"
    by (rule Itoa_of_nat)
qed

lemma word_less_samples: "(2 :: go_int) <s 3" "\<not> (3 :: go_int) <s 3"
  by (simp_all add: word_sless_alt)

lemma fa_search_paged_world:
  "fa_search (paged_world pages tot k) cfg s =
     Inr \<lparr>res_StartAt = 0, res_MaxResults = 2, Total = tot,
          Issues = (if k < length pages then pages ! k else [])\<rparr>"
  by (simp add: fa_search_def SearchJQLWithParams_paged_world)

lemma sa_search_paged_world:
  "sa_search (paged_world pages tot k) cfg s =
     Inr \<lparr>res_StartAt = 0, res_MaxResults = 2, Total = tot,
          Issues = (if k < length pages then pages ! k else [])\<rparr>"
  by (simp add: sa_search_def SearchJQLWithParams_paged_world)

lemma start_offset_two: "start_offset ''2'' = Inr 2"
  by (simp add: start_offset_def strconv_eval)

lemma Itoa_two: "Itoa 2 = ''2''"
  by (simp add: strconv_eval)

lemma paged_fetch_first:
  "FetchAllIssues_fetcher (paged_world three_issues 3 0) cfg [] = (first_page, None)"
  "SearchAllJQL_fetcher (paged_world three_issues 3 0) cfg' [] = (first_page, None)"
  by (simp_all add: FetchAllIssues_fetcher_cases SearchAllJQL_fetcher_cases start_offset_empty
      fa_search_paged_world sa_search_paged_world page_result_def Let_def first_page_def
      three_issues_def word_less_samples Itoa_two)

lemma paged_run_first:
  fixes fetch :: fetch_fun
  assumes "fetch 0 [] = (first_page, None)"
  shows "run fetch [([], first_page)] after_first_page"
proof -
  have call: "fetch (pageCount initial_state) (cursor initial_state) = (first_page, None)"
    using assms by (simp add: initial_state_def)
  have step: "paginate_step fetch initial_state = Continue after_first_page"
    using call
    by (simp add: paginate_step_Continue first_page_def after_first_page_def next_state_def
        initial_state_def)
  from run_step [OF run_start call step] show ?thesis
    by (simp add: initial_state_def)
qed

text \<open>Total three, pages of two and one: the first call, with the empty cursor, returns
  two items and the cursor \<^verbatim>\<open>2\<close>; the second call, with the cursor \<^verbatim>\<open>2\<close>, returns the last
  item and no cursor.\<close>

theorem next_cursor_encodes_items_so_far_witness:
  "FetchAllIssues_fetcher (paged_world three_issues 3 0) sample_config [] =
     (\<lparr>Items = three_issues ! 0, NextCursor = ''2'', HasMore = True\<rparr>, None)
   \<and> SearchAllJQL_fetcher (paged_world three_issues 3 1) sample_jql_config ''2'' =
     (\<lparr>Items = three_issues ! 1, NextCursor = [], HasMore = False\<rparr>, None)
   \<and> run (\<lambda>k. FetchAllIssues_fetcher (paged_world three_issues 3 k) sample_config)
       [([], first_page)] after_first_page
   \<and> run (\<lambda>k. SearchAllJQL_fetcher (paged_world three_issues 3 k) sample_jql_config)
       [([], first_page)] after_first_page
   \<and> cursor after_first_page = ''2''
   \<and> sum_list (map (\<lambda>call. length (Items (snd call))) [([], first_page)]) = 2
   \<and> Itoa (of_nat 2) = formatBits 2"
proof -
  define r0 :: SearchResult
    where "r0 = \<lparr>res_StartAt = 0, res_MaxResults = 2, Total = 3, Issues = three_issues ! 0\<rparr>"
  define r1 :: SearchResult
    where "r1 = \<lparr>res_StartAt = 0, res_MaxResults = 2, Total = 3, Issues = three_issues ! 1\<rparr>"
  have search0: "start_offset [] = Inr 0
      \<and> fa_search (paged_world three_issues 3 0) sample_config 0 = Inr r0"
    by (simp add: start_offset_empty fa_search_paged_world r0_def three_issues_def)
  have search1: "start_offset ''2'' = Inr 2
      \<and> sa_search (paged_world three_issues 3 1) sample_jql_config 2 = Inr r1"
    by (simp add: start_offset_two sa_search_paged_world r1_def three_issues_def)
  have run_fa: "run (\<lambda>k. FetchAllIssues_fetcher (paged_world three_issues 3 k) sample_config)
      [([], first_page)] after_first_page"
    by (rule paged_run_first) (rule paged_fetch_first)
  have run_sa: "run (\<lambda>k. SearchAllJQL_fetcher (paged_world three_issues 3 k) sample_jql_config)
      [([], first_page)] after_first_page"
    by (rule paged_run_first) (rule paged_fetch_first)
  have small: "(2 :: nat) < 2 ^ 63" by simp
  have first: "FetchAllIssues_fetcher (paged_world three_issues 3 0) sample_config [] =
      (\<lparr>Items = three_issues ! 0, NextCursor = ''2'', HasMore = True\<rparr>, None)"
    using next_cursor_encodes_items_so_far
      [where c = "[]" and startAt = 0 and w = "paged_world three_issues 3 0"
        and cfg = sample_config and result = r0]
      search0
    by (simp add: r0_def three_issues_def word_less_samples Itoa_two)
  have second: "SearchAllJQL_fetcher (paged_world three_issues 3 1) sample_jql_config ''2'' =
      (\<lparr>Items = three_issues ! 1, NextCursor = [], HasMore = False\<rparr>, None)"
    using next_cursor_encodes_items_so_far
      [where c = "''2''" and startAt = 2 and w = "paged_world three_issues 3 1"
        and cfg' = sample_jql_config and result = r1]
      search1
    by (simp add: r1_def three_issues_def word_less_samples)
  have cur: "cursor after_first_page =
      Itoa (of_nat (sum_list (map (\<lambda>call. length (Items (snd call))) [([], first_page)])))"
    using next_cursor_encodes_items_so_far
      [where W = "paged_world three_issues 3" and cfg = sample_config
        and calls = "[([], first_page)]" and st = after_first_page]
      run_fa
    by simp
  have digits: "Itoa (of_nat 2) = formatBits 2"
    using next_cursor_encodes_items_so_far [where n = 2] small by blast
  have len: "sum_list (map (\<lambda>call. length (Items (snd call))) [([], first_page)]) = 2"
    by (simp add: first_page_def three_issues_def)
  show ?thesis
    using first second run_fa run_sa cur digits len
    by (simp add: after_first_page_def)
qed

text \<open>
  A search that returns no issues and a total above its offset: the fetcher returns
  \<^verbatim>\<open>HasMore = true\<close> and a cursor that decodes to the offset it started from. What a
  run does with such a page is decided by \<^verbatim>\<open>core.PaginateWithConfig\<close>, and by the time
  limit and the cancellation of the runtime, not by the fetchers.
\<close>

lemma zero_item_page_same_cursor:
  assumes "start_offset c = Inr startAt" and "Issues result = []"
    and "startAt <s Total result"
  shows "fa_search w cfg startAt = Inr result \<Longrightarrow>
           FetchAllIssues_fetcher w cfg c =
             (\<lparr>Items = [], NextCursor = Itoa startAt, HasMore = True\<rparr>, None)"
    and "sa_search w cfg' startAt = Inr result \<Longrightarrow>
           SearchAllJQL_fetcher w cfg' c =
             (\<lparr>Items = [], NextCursor = Itoa startAt, HasMore = True\<rparr>, None)"
    and "start_offset (Itoa startAt) = Inr startAt"
  using assms
  by (simp_all add: FetchAllIssues_fetcher_cases SearchAllJQL_fetcher_cases page_result_def
      Let_def start_offset_Itoa)

text \<open>
  C4. For a non-empty cursor that \<^verbatim>\<open>strconv.Atoi\<close> rejects, either fetcher returns the
  zero page result together with the error of \<^verbatim>\<open>Atoi\<close> under the label
  \<^verbatim>\<open>parse cursor\<close>, whatever the server would answer; the engine's step at such a cursor
  ends the run with that error, without another fetch.
\<close>

theorem cursor_decode_failure_is_terminal:
  assumes "c \<noteq> []" and "Atoi c = Inl e"
  shows "FetchAllIssues_fetcher w cfg c = (zero_PageResult, Some (WrapError ''parse cursor'' e))
    \<and> SearchAllJQL_fetcher w cfg' c = (zero_PageResult, Some (WrapError ''parse cursor'' e))
    \<and> Error quote (WrapError ''parse cursor'' e) = ''parse cursor: '' @ Error quote e
    \<and> paginate_step (\<lambda>k. FetchAllIssues_fetcher (W k) cfg) (st\<lparr>cursor := c\<rparr>)
        = Done (Inl (WrapError ''parse cursor'' e))
    \<and> paginate_loop (\<lambda>k. FetchAllIssues_fetcher (W k) cfg) (st\<lparr>cursor := c\<rparr>)
        = Some (Inl (WrapError ''parse cursor'' e))
    \<and> paginate_step (\<lambda>k. SearchAllJQL_fetcher (W k) cfg') (st\<lparr>cursor := c\<rparr>)
        = Done (Inl (WrapError ''parse cursor'' e))
    \<and> paginate_loop (\<lambda>k. SearchAllJQL_fetcher (W k) cfg') (st\<lparr>cursor := c\<rparr>)
        = Some (Inl (WrapError ''parse cursor'' e))"
proof -
  have off: "start_offset c = Inl e"
    using assms by (simp add: start_offset_def)
  have fa: "FetchAllIssues_fetcher w cfg c = (zero_PageResult, Some (WrapError ''parse cursor'' e))"
    for w
    by (simp add: FetchAllIssues_fetcher_cases off)
  have sa: "SearchAllJQL_fetcher w cfg' c = (zero_PageResult, Some (WrapError ''parse cursor'' e))"
    for w
    by (simp add: SearchAllJQL_fetcher_cases off)
  have step_fa: "paginate_step (\<lambda>k. FetchAllIssues_fetcher (W k) cfg) (st\<lparr>cursor := c\<rparr>)
      = Done (Inl (WrapError ''parse cursor'' e))"
    by (simp add: paginate_step_def fa)
  have step_sa: "paginate_step (\<lambda>k. SearchAllJQL_fetcher (W k) cfg') (st\<lparr>cursor := c\<rparr>)
      = Done (Inl (WrapError ''parse cursor'' e))"
    by (simp add: paginate_step_def sa)
  show ?thesis
    using fa sa step_fa step_sa paginate_loop_Done [OF step_fa] paginate_loop_Done [OF step_sa]
    by simp
qed

theorem cursor_decode_failure_is_terminal_witness:
  "Atoi ''abc'' = Inl (NumError ''Atoi'' ''abc'' ErrSyntax)
   \<and> FetchAllIssues_fetcher forbidden_world sample_config ''abc'' =
       (zero_PageResult, Some (WrapError ''parse cursor'' (NumError ''Atoi'' ''abc'' ErrSyntax)))
   \<and> SearchAllJQL_fetcher forbidden_world sample_jql_config ''abc'' =
       (zero_PageResult, Some (WrapError ''parse cursor'' (NumError ''Atoi'' ''abc'' ErrSyntax)))
   \<and> paginate_loop (\<lambda>k. FetchAllIssues_fetcher (paged_world three_issues 3 k) sample_config)
       (after_first_page\<lparr>cursor := ''abc''\<rparr>)
       = Some (Inl (WrapError ''parse cursor'' (NumError ''Atoi'' ''abc'' ErrSyntax)))
   \<and> Error id (WrapError ''parse cursor'' (NumError ''Atoi'' ''abc'' ErrSyntax)) =
       ''parse cursor: strconv.Atoi: parsing abc: invalid syntax''"
proof -
  have nonempty: "''abc'' \<noteq> []" by simp
  have rejected: "Atoi ''abc'' = Inl (NumError ''Atoi'' ''abc'' ErrSyntax)"
    by (rule Atoi_examples)
  note inst = cursor_decode_failure_is_terminal [OF nonempty rejected]
  show ?thesis
    using rejected
      inst [of forbidden_world sample_config sample_jql_config id
        "paged_world three_issues 3" after_first_page]
    by simp
qed

section \<open>The specification's pagination scenarios\<close>

text \<open>One page holding all three issues: one call. Pages of 100, 100 and 50 with the
  total 250: three calls, 250 items, with the cursors \<^verbatim>\<open>100\<close> and \<^verbatim>\<open>200\<close> after the
  first and the second page.\<close>

lemma scenario_single_page:
  "FetchAllIssues (paged_world [concat three_issues] 3) sample_config =
     Some (Inr \<lparr>out_Items = concat three_issues, out_PageCount = 1, out_FinalCursor = []\<rparr>)"
proof -
  let ?pages = "[concat three_issues]"
  have sum: "sum_list (map length ?pages) = 3"
    by (simp add: three_issues_def)
  have served: "serves_pages (paged_world ?pages 3) (fa_client sample_config) ?pages
      (of_nat (sum_list (map length ?pages)))"
    unfolding sum using serves_pages_paged_world [of ?pages 3] by simp
  have "\<forall>p \<in> set ?pages. p \<noteq> []"
    by (simp add: three_issues_def)
  moreover have "?pages \<noteq> []" and "sum_list (map length ?pages) < 2 ^ 63"
    by (simp_all add: three_issues_def)
  ultimately show ?thesis
    using paginate_all_pages [OF fa_fetch_serves [OF served]]
    by (auto simp: FetchAllIssues_def)
qed

lemma scenario_three_pages:
  "FetchAllIssues (paged_world spec_pages 250) sample_config =
     Some (Inr \<lparr>out_Items = replicate 250 bug_issue, out_PageCount = 3,
                out_FinalCursor = []\<rparr>)"
  "NextCursor (page_result 0 \<lparr>res_StartAt = 0, res_MaxResults = 100, Total = 250,
     Issues = spec_pages ! 0\<rparr>) = ''100''"
  "NextCursor (page_result 100 \<lparr>res_StartAt = 100, res_MaxResults = 100, Total = 250,
     Issues = spec_pages ! 1\<rparr>) = ''200''"
  "HasMore (page_result 200 \<lparr>res_StartAt = 200, res_MaxResults = 100, Total = 250,
     Issues = spec_pages ! 2\<rparr>) = False"
proof -
  have sum: "sum_list (map length spec_pages) = 250"
    by (simp add: spec_pages_def)
  have served: "serves_pages (paged_world spec_pages 250) (fa_client sample_config) spec_pages
      (of_nat (sum_list (map length spec_pages)))"
    unfolding sum using serves_pages_paged_world [of spec_pages 250] by simp
  have nonempty: "\<forall>p \<in> set spec_pages. p \<noteq> []" and len: "length spec_pages = 3"
    by (simp_all add: spec_pages_def)
  have all: "concat spec_pages = replicate 250 bug_issue"
    by (simp add: spec_pages_def replicate_add [symmetric])
  have ne: "spec_pages \<noteq> []" and fits: "sum_list (map length spec_pages) < 2 ^ 63"
    by (simp_all add: spec_pages_def)
  from paginate_all_pages [OF fa_fetch_serves [OF served] ne fits] nonempty len all
  show "FetchAllIssues (paged_world spec_pages 250) sample_config =
     Some (Inr \<lparr>out_Items = replicate 250 bug_issue, out_PageCount = 3,
                out_FinalCursor = []\<rparr>)"
    by (auto simp: FetchAllIssues_def)
  show "NextCursor (page_result 0 \<lparr>res_StartAt = 0, res_MaxResults = 100, Total = 250,
     Issues = spec_pages ! 0\<rparr>) = ''100''"
    by (simp add: page_result_def spec_pages_def word_sless_alt Itoa_examples)
  show "NextCursor (page_result 100 \<lparr>res_StartAt = 100, res_MaxResults = 100, Total = 250,
     Issues = spec_pages ! 1\<rparr>) = ''200''"
    by (simp add: page_result_def spec_pages_def word_sless_alt Itoa_examples)
  show "HasMore (page_result 200 \<lparr>res_StartAt = 200, res_MaxResults = 100, Total = 250,
     Issues = spec_pages ! 2\<rparr>) = False"
    by (simp add: page_result_def spec_pages_def word_sless_alt)
qed

end
